theory Spec2Isabelle
  imports Main "HOL-Library.Multiset"
begin

section \<open>Python values and the external collaborators\<close>

text \<open>
  The payload dictionaries handed to the storage layer (\<open>decision_data\<close>,
  \<open>preferences\<close>) carry untyped JSON-like values. They are modelled by \<open>pyval\<close>;
  \<open>truthy\<close> is Python's \<open>bool(v)\<close>, which is also what \<open>if v:\<close> and \<open>a or b\<close> test.
\<close>

datatype pyval = PNone | PBool bool | PInt int | PStr string | PList "pyval list"

fun truthy :: "pyval \<Rightarrow> bool" where
  "truthy PNone = False"
| "truthy (PBool b) = b"
| "truthy (PInt n) = (n \<noteq> 0)"
| "truthy (PStr s) = (s \<noteq> [])"
| "truthy (PList xs) = (xs \<noteq> [])"

text \<open>
  \<open>d.get(k, default)\<close> on an entry that is either absent (\<open>None\<close>) or present.
\<close>

definition dict_get :: "'a option \<Rightarrow> 'a \<Rightarrow> 'a" where
  "dict_get entry dflt = (case entry of None \<Rightarrow> dflt | Some v \<Rightarrow> v)"

text \<open>
  \<open>a or b\<close> on optional strings: \<open>a\<close> when it is a non-empty string, else \<open>b\<close>.
\<close>

definition str_or :: "string option \<Rightarrow> string option \<Rightarrow> string option" where
  "str_or a b = (case a of None \<Rightarrow> b | Some s \<Rightarrow> if s \<noteq> [] then Some s else b)"

text \<open>
  Three things the code obtains from outside are parameters of the model:
  the digest \<open>hashlib.sha256(p.encode()).hexdigest()\<close> is a function \<open>h\<close> from
  passwords to hex strings; the value \<open>_gen_id()\<close> (or Firestore's automatic document
  id) returns at a call is an argument \<open>gen\<close>; the clock reading
  \<open>datetime.utcnow().isoformat()\<close> (or Firestore's server timestamp) at a call is an
  argument \<open>now\<close> of a linearly ordered type \<open>'t\<close>.
\<close>

definition hash_password :: "(string \<Rightarrow> string) \<Rightarrow> string \<Rightarrow> string" where
  "hash_password h password = h password"


section \<open>Stored records\<close>

text \<open>
  Every stored entity is a dictionary with a fixed set of keys, each written by the
  operation that creates it; it is modelled as a record with one field per key.
  The user id type \<open>'u\<close> is \<open>int\<close> in the local store and \<open>string\<close> in the remote one.
\<close>

record 't user_doc =
  email :: string
  password_hash :: string
  full_name :: string
  u_created_at :: 't

record 't user = "'t user_doc" +
  u_id :: int

record ('u, 't) decision_doc =
  d_user_id :: 'u
  title :: pyval
  description :: pyval
  goal :: pyval
  constraints :: pyval
  alternatives :: pyval
  final_choice :: pyval
  reasoning :: pyval
  expected_outcome :: pyval
  memory_layer :: pyval
  tags :: pyval
  reflection :: pyval
  outcome_status :: pyval
  created_at :: 't

record ('u, 't) decision = "('u, 't) decision_doc" +
  d_id :: string

record ('u, 't) chat_doc =
  c_user_id :: 'u
  decision_id :: "string option"
  chat_type :: string
  user_message :: string
  ai_response :: string
  timestamp :: 't
  is_visible_to_user :: bool

record ('i, 'u, 't) chat_message = "('u, 't) chat_doc" +
  c_id :: 'i

record prefs_doc =
  share_data_with_ai :: bool
  view_chat_history :: bool

record prefs = prefs_doc +
  p_user_id :: int

text \<open>
  The partial dictionaries passed by callers. An entry is \<open>None\<close> when the key is
  absent. For \<open>id\<close>, typed \<open>str\<close> by the signatures, \<open>None\<close> also stands for a
  present \<open>None\<close> value: \<open>decision_data.get("id")\<close> cannot tell the two apart.
\<close>

record decision_data =
  dd_id :: "string option"
  dd_title :: "pyval option"
  dd_description :: "pyval option"
  dd_goal :: "pyval option"
  dd_constraints :: "pyval option"
  dd_alternatives :: "pyval option"
  dd_final_choice :: "pyval option"
  dd_reasoning :: "pyval option"
  dd_expected_outcome :: "pyval option"
  dd_memory_layer :: "pyval option"
  dd_tags :: "pyval option"
  dd_reflection :: "pyval option"
  dd_outcome_status :: "pyval option"

record preferences_data =
  pd_share_data_with_ai :: "pyval option"
  pd_view_chat_history :: "pyval option"


section \<open>The local JSON store\<close>

text \<open>
  The four JSON array files. \<open>_load\<close> reads a whole array and \<open>_save\<close> rewrites it,
  so an operation is a function from the store to a result and the new store.
\<close>

record 't json_store =
  users :: "'t user list"
  decisions :: "(int, 't) decision list"
  chat :: "(int, int, 't) chat_message list"
  preferences :: "prefs list"

definition empty_store :: "'t json_store" where
  "empty_store = \<lparr>users = [], decisions = [], chat = [], preferences = []\<rparr>"

subsection \<open>Users\<close>

definition create_user ::
  "(string \<Rightarrow> string) \<Rightarrow> 't json_store \<Rightarrow> string \<Rightarrow> string \<Rightarrow> string \<Rightarrow> 't
     \<Rightarrow> bool \<times> 't json_store" where
  "create_user h s email' password full_name' now =
     (if list_ex (\<lambda>u. email u = email') (users s) then (False, s)
      else
        let uid = int (length (users s)) + 1;
            users' = users s @
              [\<lparr>email = email', password_hash = hash_password h password,
                full_name = full_name', u_created_at = now, u_id = uid\<rparr>];
            prefs' = preferences s @
              [\<lparr>share_data_with_ai = False, view_chat_history = True, p_user_id = uid\<rparr>]
        in (True, s\<lparr>users := users', preferences := prefs'\<rparr>))"

fun authenticate_scan ::
  "(string \<Rightarrow> string) \<Rightarrow> 't user list \<Rightarrow> string \<Rightarrow> string \<Rightarrow> int option" where
  "authenticate_scan h [] email' password = None"
| "authenticate_scan h (u # us) email' password =
     (if email u = email' \<and> password_hash u = hash_password h password then Some (u_id u)
      else authenticate_scan h us email' password)"

definition authenticate_user ::
  "(string \<Rightarrow> string) \<Rightarrow> 't json_store \<Rightarrow> string \<Rightarrow> string \<Rightarrow> int option" where
  "authenticate_user h s email' password = authenticate_scan h (users s) email' password"

subsection \<open>Decisions\<close>

text \<open>The search loop of \<open>save_decision\<close>: the position of the first match.\<close>

fun find_decision :: "('u, 't) decision list \<Rightarrow> string \<Rightarrow> 'u \<Rightarrow> nat option" where
  "find_decision [] i u = None"
| "find_decision (d # ds) i u =
     (if d_id d = i \<and> d_user_id d = u then Some 0
      else map_option Suc (find_decision ds i u))"

text \<open>
  What the loop compares: a stored decision is addressed by its id together with its
  owner.
\<close>

definition decision_key :: "('u, 't) decision \<Rightarrow> string \<times> 'u" where
  "decision_key d = (d_id d, d_user_id d)"

text \<open>\<open>decision_data.get("id") or _gen_id()\<close>.\<close>

definition choose_id :: "decision_data \<Rightarrow> string \<Rightarrow> string" where
  "choose_id dd gen = (case dd_id dd of None \<Rightarrow> gen | Some i \<Rightarrow> if i \<noteq> [] then i else gen)"

definition json_payload ::
  "string \<Rightarrow> int \<Rightarrow> decision_data \<Rightarrow> 't \<Rightarrow> (int, 't) decision" where
  "json_payload i u dd now =
     \<lparr>d_user_id = u,
      title = dict_get (dd_title dd) PNone,
      description = dict_get (dd_description dd) PNone,
      goal = dict_get (dd_goal dd) PNone,
      constraints = dict_get (dd_constraints dd) (PList []),
      alternatives = dict_get (dd_alternatives dd) (PList []),
      final_choice = dict_get (dd_final_choice dd) PNone,
      reasoning = dict_get (dd_reasoning dd) PNone,
      expected_outcome = dict_get (dd_expected_outcome dd) PNone,
      memory_layer = dict_get (dd_memory_layer dd) (PStr ''private''),
      tags = dict_get (dd_tags dd) (PList []),
      reflection = dict_get (dd_reflection dd) PNone,
      outcome_status = dict_get (dd_outcome_status dd) PNone,
      created_at = now,
      d_id = i\<rparr>"

text \<open>\<open>found.update(payload)\<close>: every key of the payload overwrites the stored one.\<close>

definition dict_update :: "('u, 't) decision \<Rightarrow> ('u, 't) decision \<Rightarrow> ('u, 't) decision" where
  "dict_update found payload =
     found\<lparr>d_id := d_id payload,
       d_user_id := d_user_id payload,
       title := title payload,
       description := description payload,
       goal := goal payload,
       constraints := constraints payload,
       alternatives := alternatives payload,
       final_choice := final_choice payload,
       reasoning := reasoning payload,
       expected_outcome := expected_outcome payload,
       memory_layer := memory_layer payload,
       tags := tags payload,
       reflection := reflection payload,
       outcome_status := outcome_status payload,
       created_at := created_at payload\<rparr>"

definition save_decision ::
  "'t json_store \<Rightarrow> int \<Rightarrow> decision_data \<Rightarrow> string \<Rightarrow> 't \<Rightarrow> string \<times> 't json_store" where
  "save_decision s user_id dd gen now =
     (let decision_id' = choose_id dd gen;
          payload = json_payload decision_id' user_id dd now;
          decisions' =
            (case find_decision (decisions s) decision_id' user_id of
               Some k \<Rightarrow> (decisions s)[k := dict_update (decisions s ! k) payload]
             | None \<Rightarrow> payload # decisions s)
      in (decision_id', s\<lparr>decisions := decisions'\<rparr>))"

fun get_decision_scan ::
  "('u, 't) decision list \<Rightarrow> 'u \<Rightarrow> string \<Rightarrow> ('u, 't) decision option" where
  "get_decision_scan [] u i = None"
| "get_decision_scan (d # ds) u i =
     (if d_id d = i \<and> d_user_id d = u then Some d else get_decision_scan ds u i)"

definition get_decision :: "'t json_store \<Rightarrow> int \<Rightarrow> string \<Rightarrow> (int, 't) decision option" where
  "get_decision s user_id decision_id' = get_decision_scan (decisions s) user_id decision_id'"

text \<open>
  \<open>xs.sort(key=f)\<close> is a stable ascending sort; with \<open>reverse=True\<close> it is a stable
  descending one (records with equal keys keep their order), which is the stable
  ascending sort of the reversed list, reversed.
\<close>

definition sort_ascending :: "('a \<Rightarrow> 'k::linorder) \<Rightarrow> 'a list \<Rightarrow> 'a list" where
  "sort_ascending f xs = sort_key f xs"

definition sort_descending :: "('a \<Rightarrow> 'k::linorder) \<Rightarrow> 'a list \<Rightarrow> 'a list" where
  "sort_descending f xs = rev (sort_key f (rev xs))"

text \<open>The slice \<open>xs[:n]\<close>: a negative \<open>n\<close> counts from the end.\<close>

definition slice_to :: "int \<Rightarrow> 'a list \<Rightarrow> 'a list" where
  "slice_to n xs = (if 0 \<le> n then take (nat n) xs else take (nat (int (length xs) + n)) xs)"

definition get_user_decisions ::
  "('t::linorder) json_store \<Rightarrow> int \<Rightarrow> int option \<Rightarrow> (int, 't) decision list" where
  "get_user_decisions s user_id limit =
     (let ds = sort_descending created_at (filter (\<lambda>d. d_user_id d = user_id) (decisions s))
      in case limit of
           None \<Rightarrow> ds
         | Some n \<Rightarrow> if n \<noteq> 0 then slice_to n ds else ds)"

definition delete_decision :: "'t json_store \<Rightarrow> int \<Rightarrow> string \<Rightarrow> bool \<times> 't json_store" where
  "delete_decision s user_id decision_id' =
     (let new = filter (\<lambda>d. \<not> (d_id d = decision_id' \<and> d_user_id d = user_id)) (decisions s);
          changed = (length new \<noteq> length (decisions s))
      in if changed then (changed, s\<lparr>decisions := new\<rparr>) else (changed, s))"

subsection \<open>Chat\<close>

definition save_chat_message ::
  "'t json_store \<Rightarrow> int \<Rightarrow> string \<Rightarrow> string \<Rightarrow> string \<Rightarrow> string option \<Rightarrow> bool \<Rightarrow> 't
     \<Rightarrow> int \<times> 't json_store" where
  "save_chat_message s user_id user_message' ai_response' chat_type' decision_id' is_visible now =
     (let cid = int (length (chat s)) + 1;
          chat' = chat s @
            [\<lparr>c_user_id = user_id, decision_id = decision_id', chat_type = chat_type',
              user_message = user_message', ai_response = ai_response', timestamp = now,
              is_visible_to_user = is_visible, c_id = cid\<rparr>]
      in (cid, s\<lparr>chat := chat'\<rparr>))"

text \<open>\<open>if arg:\<close> on an optional string argument: supplied and non-empty.\<close>

definition given :: "string option \<Rightarrow> bool" where
  "given arg = (case arg of None \<Rightarrow> False | Some v \<Rightarrow> v \<noteq> [])"

definition get_chat_history ::
  "('t::linorder) json_store \<Rightarrow> int \<Rightarrow> string option \<Rightarrow> string option \<Rightarrow> bool
     \<Rightarrow> (int, int, 't) chat_message list" where
  "get_chat_history s user_id decision_id' chat_type' include_hidden =
     (let c0 = filter (\<lambda>c. c_user_id c = user_id) (chat s);
          c1 = (if given decision_id' then filter (\<lambda>c. decision_id c = decision_id') c0 else c0);
          c2 = (if given chat_type' then filter (\<lambda>c. Some (chat_type c) = chat_type') c1 else c1);
          c3 = (if \<not> include_hidden then filter is_visible_to_user c2 else c2)
      in sort_ascending timestamp c3)"

subsection \<open>Preferences\<close>

fun get_user_preferences_scan :: "prefs list \<Rightarrow> int \<Rightarrow> prefs_doc" where
  "get_user_preferences_scan [] u =
     \<lparr>share_data_with_ai = False, view_chat_history = True\<rparr>"
| "get_user_preferences_scan (p # ps) u =
     (if p_user_id p = u
      then \<lparr>share_data_with_ai = share_data_with_ai p, view_chat_history = view_chat_history p\<rparr>
      else get_user_preferences_scan ps u)"

definition get_user_preferences :: "'t json_store \<Rightarrow> int \<Rightarrow> prefs_doc" where
  "get_user_preferences s user_id = get_user_preferences_scan (preferences s) user_id"

text \<open>
  The loop of \<open>update_user_preferences\<close>: the first record of the user is rewritten in
  place; \<open>None\<close> when the loop ends without a match.
\<close>

fun update_first_prefs :: "prefs list \<Rightarrow> int \<Rightarrow> preferences_data \<Rightarrow> prefs list option" where
  "update_first_prefs [] u pd = None"
| "update_first_prefs (p # ps) u pd =
     (if p_user_id p = u
      then Some (p\<lparr>share_data_with_ai :=
                     truthy (dict_get (pd_share_data_with_ai pd) (PBool (share_data_with_ai p))),
                   view_chat_history :=
                     truthy (dict_get (pd_view_chat_history pd) (PBool (view_chat_history p)))\<rparr>
                 # ps)
      else map_option ((#) p) (update_first_prefs ps u pd))"

definition update_user_preferences ::
  "'t json_store \<Rightarrow> int \<Rightarrow> preferences_data \<Rightarrow> bool \<times> 't json_store" where
  "update_user_preferences s user_id pd =
     (case update_first_prefs (preferences s) user_id pd of
        Some prefs' \<Rightarrow> (True, s\<lparr>preferences := prefs'\<rparr>)
      | None \<Rightarrow>
          (True, s\<lparr>preferences := preferences s @
             [\<lparr>share_data_with_ai = truthy (dict_get (pd_share_data_with_ai pd) (PBool False)),
               view_chat_history = truthy (dict_get (pd_view_chat_history pd) (PBool True)),
               p_user_id = user_id\<rparr>]\<rparr>))"


section \<open>The remote Firestore store\<close>

text \<open>
  The Firestore client is an external library; the model keeps what its documentation
  promises and the code relies on. A collection holds documents under distinct string
  ids, listed here in the order a query streams them. \<open>document(k).get()\<close> is
  \<open>doc_get\<close>, \<open>document(k).set(d)\<close> is \<open>doc_set\<close>, \<open>where(field, "==", v)\<close> keeps the
  matching documents, \<open>order_by\<close> sorts them on a field (the order among equal keys is
  the library's own; no result below depends on it) and \<open>limit(n)\<close> keeps the first
  \<open>n\<close>, the service rejecting a negative \<open>n\<close>.
\<close>

type_synonym 'a collection = "(string \<times> 'a) list"

fun doc_get :: "'a collection \<Rightarrow> string \<Rightarrow> 'a option" where
  "doc_get [] k = None"
| "doc_get ((k', d) # c) k = (if k' = k then Some d else doc_get c k)"

fun doc_set :: "'a collection \<Rightarrow> string \<Rightarrow> 'a \<Rightarrow> 'a collection" where
  "doc_set [] k d = [(k, d)]"
| "doc_set ((k', d') # c) k d = (if k' = k then (k, d) # c else (k', d') # doc_set c k d)"

definition doc_delete :: "'a collection \<Rightarrow> string \<Rightarrow> 'a collection" where
  "doc_delete c k = filter (\<lambda>(k', d). k' \<noteq> k) c"

definition where_eq :: "('a \<Rightarrow> 'b) \<Rightarrow> 'b \<Rightarrow> 'a collection \<Rightarrow> 'a collection" where
  "where_eq field v c = filter (\<lambda>(k, d). field d = v) c"

datatype firestore_error = InvalidArgument

definition query_limit :: "int \<Rightarrow> 'a collection \<Rightarrow> firestore_error + 'a collection" where
  "query_limit n c = (if n < 0 then Inl InvalidArgument else Inr (take (nat n) c))"

record fs_prefs_doc = prefs_doc +
  fp_user_id :: "string option"

record 't firestore =
  fs_users :: "'t user_doc collection"
  fs_decisions :: "(string, 't) decision_doc collection"
  fs_chat :: "(string, 't) chat_doc collection"
  fs_prefs :: "fs_prefs_doc collection"

subsection \<open>Users\<close>

definition fs_create_user ::
  "(string \<Rightarrow> string) \<Rightarrow> 't firestore \<Rightarrow> string \<Rightarrow> string \<Rightarrow> string \<Rightarrow> string \<Rightarrow> 't
     \<Rightarrow> bool \<times> 't firestore" where
  "fs_create_user h s email' password full_name' gen now =
     (let q = take 1 (where_eq email email' (fs_users s))
      in if q \<noteq> [] then (False, s)
         else
           let doc = \<lparr>email = email', password_hash = hash_password h password,
                      full_name = full_name', u_created_at = now\<rparr>;
               uid = gen;
               users' = doc_set (fs_users s) uid doc;
               prefs' = doc_set (fs_prefs s) uid
                 \<lparr>share_data_with_ai = False, view_chat_history = True, fp_user_id = Some uid\<rparr>
           in (True, s\<lparr>fs_users := users', fs_prefs := prefs'\<rparr>))"

fun fs_authenticate_scan ::
  "(string \<Rightarrow> string) \<Rightarrow> 't user_doc collection \<Rightarrow> string \<Rightarrow> string option" where
  "fs_authenticate_scan h [] password = None"
| "fs_authenticate_scan h ((k, d) # q) password =
     (if password_hash d = hash_password h password then Some k
      else fs_authenticate_scan h q password)"

definition fs_authenticate_user ::
  "(string \<Rightarrow> string) \<Rightarrow> 't firestore \<Rightarrow> string \<Rightarrow> string \<Rightarrow> string option" where
  "fs_authenticate_user h s email' password =
     fs_authenticate_scan h (take 1 (where_eq email email' (fs_users s))) password"

subsection \<open>Decisions\<close>

definition fs_payload :: "string \<Rightarrow> decision_data \<Rightarrow> 't \<Rightarrow> (string, 't) decision_doc" where
  "fs_payload u dd now =
     \<lparr>d_user_id = u,
      title = dict_get (dd_title dd) PNone,
      description = dict_get (dd_description dd) PNone,
      goal = dict_get (dd_goal dd) PNone,
      constraints = dict_get (dd_constraints dd) (PList []),
      alternatives = dict_get (dd_alternatives dd) (PList []),
      final_choice = dict_get (dd_final_choice dd) PNone,
      reasoning = dict_get (dd_reasoning dd) PNone,
      expected_outcome = dict_get (dd_expected_outcome dd) PNone,
      memory_layer = dict_get (dd_memory_layer dd) (PStr ''private''),
      tags = dict_get (dd_tags dd) (PList []),
      reflection = dict_get (dd_reflection dd) PNone,
      outcome_status = dict_get (dd_outcome_status dd) PNone,
      created_at = now\<rparr>"

text \<open>
  \<open>set(payload, merge=True)\<close>: the fields of the payload overwrite those of the
  stored document, which keeps its other fields; a missing document is created.
\<close>

definition merge_decision ::
  "('u, 't) decision_doc \<Rightarrow> ('u, 't) decision_doc \<Rightarrow> ('u, 't) decision_doc" where
  "merge_decision old payload =
     old\<lparr>d_user_id := d_user_id payload,
       title := title payload,
       description := description payload,
       goal := goal payload,
       constraints := constraints payload,
       alternatives := alternatives payload,
       final_choice := final_choice payload,
       reasoning := reasoning payload,
       expected_outcome := expected_outcome payload,
       memory_layer := memory_layer payload,
       tags := tags payload,
       reflection := reflection payload,
       outcome_status := outcome_status payload,
       created_at := created_at payload\<rparr>"

definition fs_save_decision ::
  "'t firestore \<Rightarrow> string \<Rightarrow> decision_data \<Rightarrow> string \<Rightarrow> 't \<Rightarrow> string \<times> 't firestore" where
  "fs_save_decision s user_id dd gen now =
     (let decision_id' = choose_id dd gen;
          payload = fs_payload user_id dd now;
          doc = (case doc_get (fs_decisions s) decision_id' of
                   None \<Rightarrow> payload
                 | Some old \<Rightarrow> merge_decision old payload)
      in (decision_id', s\<lparr>fs_decisions := doc_set (fs_decisions s) decision_id' doc\<rparr>))"

text \<open>\<open>{**doc.to_dict(), "id": doc.id}\<close>.\<close>

definition with_id :: "string \<times> ('u, 't) decision_doc \<Rightarrow> ('u, 't) decision" where
  "with_id kd = decision_doc.extend (snd kd) (decision.fields (fst kd))"

definition fs_get_decision ::
  "'t firestore \<Rightarrow> string \<Rightarrow> string \<Rightarrow> (string, 't) decision option" where
  "fs_get_decision s user_id decision_id' =
     (case doc_get (fs_decisions s) decision_id' of
        None \<Rightarrow> None
      | Some d \<Rightarrow> if d_user_id d = user_id then Some (with_id (decision_id', d)) else None)"

definition fs_get_user_decisions ::
  "('t::linorder) firestore \<Rightarrow> string \<Rightarrow> int option
     \<Rightarrow> firestore_error + (string, 't) decision list" where
  "fs_get_user_decisions s user_id limit =
     (let q = sort_descending (\<lambda>(k, d). created_at d) (where_eq d_user_id user_id (fs_decisions s))
      in case limit of
           None \<Rightarrow> Inr (map with_id q)
         | Some n \<Rightarrow>
             if n \<noteq> 0
             then (case query_limit n q of Inl e \<Rightarrow> Inl e | Inr q' \<Rightarrow> Inr (map with_id q'))
             else Inr (map with_id q))"

subsection \<open>Chat\<close>

definition chat_with_id :: "string \<times> ('u, 't) chat_doc \<Rightarrow> (string, 'u, 't) chat_message" where
  "chat_with_id kd = chat_doc.extend (snd kd) (chat_message.fields (fst kd))"

definition fs_save_chat_message ::
  "'t firestore \<Rightarrow> string \<Rightarrow> string \<Rightarrow> string \<Rightarrow> string \<Rightarrow> string option \<Rightarrow> bool \<Rightarrow> string
     \<Rightarrow> 't \<Rightarrow> string \<times> 't firestore" where
  "fs_save_chat_message s user_id user_message' ai_response' chat_type' decision_id' is_visible
       gen now =
     (let payload = \<lparr>c_user_id = user_id, decision_id = decision_id', chat_type = chat_type',
                      user_message = user_message', ai_response = ai_response',
                      timestamp = now, is_visible_to_user = is_visible\<rparr>
      in (gen, s\<lparr>fs_chat := doc_set (fs_chat s) gen payload\<rparr>))"

definition fs_get_chat_history ::
  "('t::linorder) firestore \<Rightarrow> string \<Rightarrow> string option \<Rightarrow> string option \<Rightarrow> bool
     \<Rightarrow> (string, string, 't) chat_message list" where
  "fs_get_chat_history s user_id decision_id' chat_type' include_hidden =
     (let q0 = where_eq c_user_id user_id (fs_chat s);
          q1 = (if given decision_id' then where_eq decision_id decision_id' q0 else q0);
          q2 = (if given chat_type' then where_eq (\<lambda>d. Some (chat_type d)) chat_type' q1 else q1);
          q3 = (if \<not> include_hidden then where_eq is_visible_to_user True q2 else q2)
      in map chat_with_id (sort_ascending (\<lambda>(k, d). timestamp d) q3))"

subsection \<open>Preferences\<close>

definition fs_get_user_preferences :: "'t firestore \<Rightarrow> string \<Rightarrow> prefs_doc" where
  "fs_get_user_preferences s user_id =
     (case doc_get (fs_prefs s) user_id of
        Some d \<Rightarrow> \<lparr>share_data_with_ai = share_data_with_ai d,
                   view_chat_history = view_chat_history d\<rparr>
      | None \<Rightarrow> \<lparr>share_data_with_ai = False, view_chat_history = True\<rparr>)"

definition fs_update_user_preferences ::
  "'t firestore \<Rightarrow> string \<Rightarrow> preferences_data \<Rightarrow> bool \<times> 't firestore" where
  "fs_update_user_preferences s user_id pd =
     (let share = truthy (dict_get (pd_share_data_with_ai pd) (PBool False));
          view = truthy (dict_get (pd_view_chat_history pd) (PBool True));
          doc = (case doc_get (fs_prefs s) user_id of
                   None \<Rightarrow> \<lparr>share_data_with_ai = share, view_chat_history = view,
                             fp_user_id = None\<rparr>
                 | Some old \<Rightarrow> old\<lparr>share_data_with_ai := share, view_chat_history := view\<rparr>)
      in (True, s\<lparr>fs_prefs := doc_set (fs_prefs s) user_id doc\<rparr>))"


section \<open>Backend selection\<close>

text \<open>
  What \<open>_select_backend\<close> reads from its surroundings: three environment variables
  (\<open>None\<close> when unset), whether \<open>firebase_admin\<close> could be imported, which paths exist,
  and whether constructing the Firestore manager on a credential path returns or
  raises an \<open>Exception\<close> (\<open>Some\<close> of its message).
\<close>

record host =
  FORCE_JSON_DB :: "string option"
  FIREBASE_KEY_PATH :: "string option"
  GOOGLE_APPLICATION_CREDENTIALS :: "string option"
  fire_imported :: bool
  path_exists :: "string \<Rightarrow> bool"
  firestore_init :: "string \<Rightarrow> string option"

datatype backend = JSONDatabaseManager | FirestoreDatabaseManager string

definition select_backend :: "host \<Rightarrow> backend" where
  "select_backend e =
     (if dict_get (FORCE_JSON_DB e) ''0'' = ''1'' then JSONDatabaseManager
      else
        case str_or (FIREBASE_KEY_PATH e) (GOOGLE_APPLICATION_CREDENTIALS e) of
          None \<Rightarrow> JSONDatabaseManager
        | Some cred_path \<Rightarrow>
            if cred_path \<noteq> [] \<and> fire_imported e \<and> path_exists e cred_path
            then (case firestore_init e cred_path of
                    None \<Rightarrow> FirestoreDatabaseManager cred_path
                  | Some err \<Rightarrow> JSONDatabaseManager)
            else JSONDatabaseManager)"

text \<open>The module-level handle: \<open>db = _select_backend()\<close>, evaluated when the module loads.\<close>

definition db :: "host \<Rightarrow> backend" where
  "db e = select_backend e"


section \<open>Language detection\<close>

text \<open>
  A Python \<open>str\<close> is a sequence of Unicode code points; \<open>len\<close> counts them and the
  character class from U+0900 to U+097F matches one code point at a time, so
  \<open>len(pattern.findall(text))\<close> is the number of code points in that range.
\<close>

type_synonym unicode = "nat list"

definition devanagari :: "nat \<Rightarrow> bool" where
  "devanagari c = (0x0900 \<le> c \<and> c \<le> 0x097F)"

text \<open>
  The test \<open>devanagari_count > len(text) * 0.2\<close> is computed in binary64 arithmetic.
  The literal \<open>0.2\<close> denotes the double \<open>3602879701896397 / 2^54\<close>; \<open>len(text)\<close> is
  converted to the nearest double; the product is the exact product rounded to 53
  significant bits, ties to even; and the comparison of an \<open>int\<close> with a \<open>float\<close> is
  exact. \<open>round53\<close> rounds a natural number to 53 significant bits, and
  \<open>len_times_0_2 n\<close> is the double \<open>n * 0.2\<close> multiplied by \<open>2^54\<close>.
\<close>

fun bit_length :: "nat \<Rightarrow> nat" where
  "bit_length n = (if n = 0 then 0 else Suc (bit_length (n div 2)))"

definition round53 :: "nat \<Rightarrow> nat" where
  "round53 p =
     (let b = bit_length p
      in if b \<le> 53 then p
         else
           let s = b - 53; q = p div 2 ^ s; r = p mod 2 ^ s; half = 2 ^ (s - 1)
           in (if half < r \<or> (r = half \<and> odd q) then q + 1 else q) * 2 ^ s)"

definition len_times_0_2 :: "nat \<Rightarrow> nat" where
  "len_times_0_2 n = round53 (round53 n * 3602879701896397)"

definition detect_language :: "unicode \<Rightarrow> string" where
  "detect_language txt =
     (if txt = [] then ''en''
      else
        let devanagari_count = length (filter devanagari txt)
        in if len_times_0_2 (length txt) < devanagari_count * 2 ^ 54 then ''hi'' else ''en'')"


section \<open>Concrete states used in the examples\<close>

text \<open>A stand-in digest for the examples: injective, like the real one is meant to be.\<close>

definition toy_hash :: "string \<Rightarrow> string" where
  "toy_hash password = ''sha:'' @ password"

definition failing_host :: host where
  "failing_host =
     \<lparr>FORCE_JSON_DB = None, FIREBASE_KEY_PATH = Some ''key.json'',
      GOOGLE_APPLICATION_CREDENTIALS = None, fire_imported = True,
      path_exists = (\<lambda>p. True), firestore_init = (\<lambda>p. Some ''unreachable'')\<rparr>"

definition sample_decision :: "'u \<Rightarrow> string \<Rightarrow> nat \<Rightarrow> ('u, nat) decision" where
  "sample_decision u i t =
     \<lparr>d_user_id = u, title = PStr ''Move cities'', description = PStr ''Move cities'',
      goal = PStr ''Career growth'', constraints = PList [PStr ''budget''],
      alternatives = PList [PStr ''stay'', PStr ''relocate''],
      final_choice = PStr ''relocate'', reasoning = PStr ''better offer'',
      expected_outcome = PNone, memory_layer = PStr ''private'', tags = PList [],
      reflection = PNone, outcome_status = PNone, created_at = t, d_id = i\<rparr>"

definition sample_chat ::
  "'u \<Rightarrow> string option \<Rightarrow> string \<Rightarrow> nat \<Rightarrow> bool \<Rightarrow> 'i \<Rightarrow> ('i, 'u, nat) chat_message" where
  "sample_chat u did ct t vis i =
     \<lparr>c_user_id = u, decision_id = did, chat_type = ct, user_message = ''hello'',
      ai_response = ''hi there'', timestamp = t, is_visible_to_user = vis, c_id = i\<rparr>"

definition sample_store :: "nat json_store" where
  "sample_store =
     \<lparr>users = [\<lparr>email = ''b@x.com'', password_hash = toy_hash ''pw9'', full_name = ''B'',
                u_created_at = 1, u_id = 1\<rparr>],
      decisions = [sample_decision 2 ''d1'' 5, sample_decision 1 ''d2'' 3,
                   sample_decision 1 ''d3'' 7],
      chat = [sample_chat 1 (Some ''d2'') ''decision_recording'' 4 True 1,
              sample_chat 1 None ''quick_chat'' 2 False 2,
              sample_chat 2 (Some ''d1'') ''decision_recording'' 1 True 3,
              sample_chat 1 (Some ''d3'') ''decision_recording'' 3 True 4],
      preferences = [\<lparr>share_data_with_ai = True, view_chat_history = True, p_user_id = 1\<rparr>]\<rparr>"

definition sample_firestore :: "nat firestore" where
  "sample_firestore =
     \<lparr>fs_users = [(''u9'', \<lparr>email = ''b@x.com'', password_hash = toy_hash ''pw9'',
                              full_name = ''B'', u_created_at = 1\<rparr>)],
      fs_decisions = [(''d1'', decision_doc.truncate (sample_decision ''u2'' ''d1'' 5)),
                      (''d2'', decision_doc.truncate (sample_decision ''u1'' ''d2'' 3)),
                      (''d3'', decision_doc.truncate (sample_decision ''u1'' ''d3'' 7))],
      fs_chat = [(''c1'', chat_doc.truncate
                   (sample_chat ''u1'' (Some ''d2'') ''decision_recording'' 4 True ''c1'')),
                 (''c2'', chat_doc.truncate
                   (sample_chat ''u1'' None ''quick_chat'' 2 False ''c2'')),
                 (''c3'', chat_doc.truncate
                   (sample_chat ''u2'' (Some ''d1'') ''decision_recording'' 1 True ''c3'')),
                 (''c4'', chat_doc.truncate
                   (sample_chat ''u1'' (Some ''d3'') ''decision_recording'' 3 True ''c4''))],
      fs_prefs = [(''u1'', \<lparr>share_data_with_ai = True, view_chat_history = True,
                            fp_user_id = Some ''u1''\<rparr>)]\<rparr>"

definition empty_firestore :: "'t firestore" where
  "empty_firestore = \<lparr>fs_users = [], fs_decisions = [], fs_chat = [], fs_prefs = []\<rparr>"

definition only_view :: preferences_data where
  "only_view = \<lparr>pd_share_data_with_ai = None, pd_view_chat_history = Some (PBool False)\<rparr>"

definition sample_data :: "string option \<Rightarrow> string \<Rightarrow> decision_data" where
  "sample_data i ttl =
     \<lparr>dd_id = i, dd_title = Some (PStr ttl), dd_description = Some (PStr ''Move cities''),
      dd_goal = Some (PStr ''Career growth''), dd_constraints = Some (PList [PStr ''budget'']),
      dd_alternatives = Some (PList [PStr ''stay'', PStr ''relocate'']),
      dd_final_choice = Some (PStr ''relocate''), dd_reasoning = Some (PStr ''better offer''),
      dd_expected_outcome = None, dd_memory_layer = None, dd_tags = None,
      dd_reflection = None, dd_outcome_status = None\<rparr>"

text \<open>
  The code points of a sentence in Devanagari (16 code points, 13 of them in the
  Devanagari block, the others spaces) and of the ASCII sentence \<open>this is a test\<close>.
\<close>

definition hindi_sample :: unicode where
  "hindi_sample = [0x92F, 0x939, 0x20, 0x90F, 0x915, 0x20, 0x92A, 0x930, 0x940, 0x915, 0x94D,
                   0x937, 0x923, 0x20, 0x939, 0x948]"

definition english_sample :: unicode where
  "english_sample = [0x74, 0x68, 0x69, 0x73, 0x20, 0x69, 0x73, 0x20, 0x61, 0x20, 0x74, 0x65,
                     0x73, 0x74]"


section \<open>Facts about the building blocks\<close>

lemma doc_set_fresh: "doc_get c k = None \<Longrightarrow> doc_set c k d = c @ [(k, d)]"
  by (induction c) (auto split: if_splits)

lemma take1_empty: "take (Suc 0) xs = [] \<longleftrightarrow> xs = []"
  by (cases xs) auto

lemma where_eq_empty: "where_eq f v c = [] \<longleftrightarrow> (\<forall>(k, d)\<in>set c. f d \<noteq> v)"
  by (auto simp: where_eq_def filter_empty_conv)

lemma get_decision_scan_None:
  "(\<forall>d\<in>set ds. d_id d = i \<longrightarrow> d_user_id d \<noteq> a) \<Longrightarrow> get_decision_scan ds a i = None"
  by (induction ds) auto

lemma authenticate_scan_other:
  "\<forall>u\<in>set us. email u \<noteq> e \<Longrightarrow> authenticate_scan h (us @ vs) e p = authenticate_scan h vs e p"
  by (induction us) auto


section \<open>The selector falls back to the local store\<close>

text \<open>
  C8. \<open>_select_backend\<close> returns the local JSON manager whenever the force-local flag
  is set (\<open>FORCE_JSON_DB\<close> is \<open>"1"\<close>), and otherwise in every failure mode of remote
  construction: no credential path configured, the client library not importable, the
  configured path empty or not existing, or the Firestore constructor raising. The
  selector is a total function: the constructor's exception is absorbed, never
  returned. The module-level handle \<open>db\<close> is that one result.
\<close>

theorem select_backend_falls_back:
  assumes "FORCE_JSON_DB e = Some ''1''
     \<or> (FIREBASE_KEY_PATH e = None \<and> GOOGLE_APPLICATION_CREDENTIALS e = None)
     \<or> \<not> fire_imported e
     \<or> (\<exists>p. str_or (FIREBASE_KEY_PATH e) (GOOGLE_APPLICATION_CREDENTIALS e) = Some p
            \<and> (p = [] \<or> \<not> path_exists e p \<or> firestore_init e p \<noteq> None))"
  shows "select_backend e = JSONDatabaseManager \<and> db e = JSONDatabaseManager"
  using assms
  by (auto simp: select_backend_def db_def dict_get_def str_or_def split: option.splits)

theorem select_backend_falls_back_witness:
  "str_or (FIREBASE_KEY_PATH failing_host) (GOOGLE_APPLICATION_CREDENTIALS failing_host)
     = Some ''key.json''
   \<and> firestore_init failing_host ''key.json'' \<noteq> None
   \<and> select_backend failing_host = JSONDatabaseManager
   \<and> db failing_host = JSONDatabaseManager"
  using select_backend_falls_back [of failing_host]
  by (simp add: failing_host_def str_or_def)

text \<open>The remote store is chosen exactly when nothing above fails.\<close>

lemma select_backend_remote:
  "select_backend e = FirestoreDatabaseManager p \<longleftrightarrow>
     FORCE_JSON_DB e \<noteq> Some ''1''
     \<and> str_or (FIREBASE_KEY_PATH e) (GOOGLE_APPLICATION_CREDENTIALS e) = Some p
     \<and> p \<noteq> [] \<and> fire_imported e \<and> path_exists e p \<and> firestore_init e p = None"
  by (auto simp: select_backend_def dict_get_def split: option.splits)


section \<open>Ownership of decisions\<close>

text \<open>
  C3. When every stored decision with id \<open>i\<close> is owned by a user \<open>b\<close> other than the
  caller \<open>a\<close>, \<open>get_decision\<close> returns \<open>None\<close>, which is also what it returns on a store
  holding no decision with that id: the caller cannot tell the two apart. The same
  holds for the Firestore manager, where the document \<open>i'\<close> exists with owner \<open>b'\<close> in
  one store and does not exist in the other.
\<close>

theorem get_decision_isolation:
  assumes "a \<noteq> b"
    and "\<forall>d\<in>set (decisions s). d_id d = i \<longrightarrow> d_user_id d = b"
    and "\<forall>d\<in>set (decisions s0). d_id d \<noteq> i"
    and "a' \<noteq> b'"
    and "doc_get (fs_decisions r) i' = Some doc" and "d_user_id doc = b'"
    and "doc_get (fs_decisions r0) i' = None"
  shows "get_decision s a i = None \<and> get_decision s0 a i = None
       \<and> fs_get_decision r a' i' = None \<and> fs_get_decision r0 a' i' = None"
  using assms
  by (auto simp: get_decision_def fs_get_decision_def intro!: get_decision_scan_None)

theorem get_decision_isolation_witness:
  "(1::int) \<noteq> 2
   \<and> (\<exists>d\<in>set (decisions sample_store). d_id d = ''d1'' \<and> d_user_id d = 2)
   \<and> get_decision sample_store 1 ''d1'' = None
   \<and> get_decision (empty_store :: nat json_store) 1 ''d1'' = None
   \<and> (\<exists>doc. doc_get (fs_decisions sample_firestore) ''d1'' = Some doc \<and> d_user_id doc = ''u2'')
   \<and> fs_get_decision sample_firestore ''u1'' ''d1'' = None
   \<and> fs_get_decision (empty_firestore :: nat firestore) ''u1'' ''d1'' = None"
  using get_decision_isolation [of 1 2 sample_store "''d1''" empty_store "''u1''" "''u2''"
      sample_firestore "''d1''" "decision_doc.truncate (sample_decision ''u2'' ''d1'' 5)"
      empty_firestore]
  by (simp add: sample_store_def sample_decision_def empty_store_def sample_firestore_def
      empty_firestore_def decision_doc.truncate_def)

lemma where_eq_doc_set:
  "\<forall>(k, d)\<in>set c. f d \<noteq> v \<Longrightarrow> f doc = v \<Longrightarrow> where_eq f v (doc_set c g doc) = [(g, doc)]"
  by (induction c) (auto simp: where_eq_def filter_empty_conv)


section \<open>Creating and authenticating users\<close>

lemma create_user_json:
  "((\<exists>u\<in>set (users s). email u = e) \<longrightarrow> create_user h s e p n now = (False, s))
   \<and> ((\<forall>u\<in>set (users s). email u \<noteq> e) \<longrightarrow>
        fst (create_user h s e p n now)
        \<and> users (snd (create_user h s e p n now)) = users s @
             [\<lparr>email = e, password_hash = h p, full_name = n, u_created_at = now,
               u_id = int (length (users s)) + 1\<rparr>]
        \<and> preferences (snd (create_user h s e p n now)) = preferences s @
             [\<lparr>share_data_with_ai = False, view_chat_history = True,
               p_user_id = int (length (users s)) + 1\<rparr>]
        \<and> decisions (snd (create_user h s e p n now)) = decisions s
        \<and> chat (snd (create_user h s e p n now)) = chat s)"
  by (auto simp: create_user_def list_ex_iff Let_def hash_password_def)

lemma create_user_firestore:
  "((\<exists>(k, d)\<in>set (fs_users r). email d = e) \<longrightarrow> fs_create_user h r e p n g now = (False, r))
   \<and> ((\<forall>(k, d)\<in>set (fs_users r). email d \<noteq> e) \<and> doc_get (fs_users r) g = None
          \<and> doc_get (fs_prefs r) g = None \<longrightarrow>
        fst (fs_create_user h r e p n g now)
        \<and> fs_users (snd (fs_create_user h r e p n g now)) = fs_users r @
             [(g, \<lparr>email = e, password_hash = h p, full_name = n, u_created_at = now\<rparr>)]
        \<and> fs_prefs (snd (fs_create_user h r e p n g now)) = fs_prefs r @
             [(g, \<lparr>share_data_with_ai = False, view_chat_history = True, fp_user_id = Some g\<rparr>)]
        \<and> fs_decisions (snd (fs_create_user h r e p n g now)) = fs_decisions r
        \<and> fs_chat (snd (fs_create_user h r e p n g now)) = fs_chat r)"
  by (auto simp: fs_create_user_def Let_def take1_empty where_eq_empty hash_password_def
      doc_set_fresh)

text \<open>
  C6. \<open>create_user\<close> compares emails by string equality. When a stored user has the
  email, it returns \<open>False\<close> as an ordinary value and the store is the one it was
  given. Otherwise it returns \<open>True\<close> and the store gains exactly two records, both
  at the end of their collections: the user, whose \<open>password_hash\<close> is the digest of
  the password, and a preferences record for the new id with
  \<open>share_data_with_ai = False\<close> and \<open>view_chat_history = True\<close>; decisions and chat are
  untouched. The first conjunct is the local store, the second the Firestore one,
  where the document id \<open>g\<close> handed out by \<open>document()\<close> is new to both collections.
\<close>

theorem create_user_contract:
  "(((\<exists>u\<in>set (users s). email u = e) \<longrightarrow> create_user h s e p n now = (False, s))
   \<and> ((\<forall>u\<in>set (users s). email u \<noteq> e) \<longrightarrow>
        fst (create_user h s e p n now)
        \<and> users (snd (create_user h s e p n now)) = users s @
             [\<lparr>email = e, password_hash = h p, full_name = n, u_created_at = now,
               u_id = int (length (users s)) + 1\<rparr>]
        \<and> preferences (snd (create_user h s e p n now)) = preferences s @
             [\<lparr>share_data_with_ai = False, view_chat_history = True,
               p_user_id = int (length (users s)) + 1\<rparr>]
        \<and> decisions (snd (create_user h s e p n now)) = decisions s
        \<and> chat (snd (create_user h s e p n now)) = chat s))
   \<and> (((\<exists>(k, d)\<in>set (fs_users r). email d = e) \<longrightarrow> fs_create_user h r e p n g now = (False, r))
   \<and> ((\<forall>(k, d)\<in>set (fs_users r). email d \<noteq> e) \<and> doc_get (fs_users r) g = None
          \<and> doc_get (fs_prefs r) g = None \<longrightarrow>
        fst (fs_create_user h r e p n g now)
        \<and> fs_users (snd (fs_create_user h r e p n g now)) = fs_users r @
             [(g, \<lparr>email = e, password_hash = h p, full_name = n, u_created_at = now\<rparr>)]
        \<and> fs_prefs (snd (fs_create_user h r e p n g now)) = fs_prefs r @
             [(g, \<lparr>share_data_with_ai = False, view_chat_history = True, fp_user_id = Some g\<rparr>)]
        \<and> fs_decisions (snd (fs_create_user h r e p n g now)) = fs_decisions r
        \<and> fs_chat (snd (fs_create_user h r e p n g now)) = fs_chat r))"
  by (rule conjI [OF create_user_json create_user_firestore])

theorem create_user_contract_witness:
  "(\<exists>u\<in>set (users sample_store). email u = ''b@x.com'')
   \<and> create_user toy_hash sample_store ''b@x.com'' ''pw1'' ''A'' 9 = (False, sample_store)
   \<and> (\<exists>(k, d)\<in>set (fs_users sample_firestore). email d = ''b@x.com'')
   \<and> fs_create_user toy_hash sample_firestore ''b@x.com'' ''pw1'' ''A'' ''u7'' 9
        = (False, sample_firestore)
   \<and> ''a@x.com'' \<notin> email ` set (users sample_store)
   \<and> fst (create_user toy_hash sample_store ''a@x.com'' ''pw1'' ''A'' 9)
   \<and> length (users (snd (create_user toy_hash sample_store ''a@x.com'' ''pw1'' ''A'' 9))) = 2
   \<and> length (preferences (snd (create_user toy_hash sample_store ''a@x.com'' ''pw1'' ''A'' 9))) = 2
   \<and> doc_get (fs_users sample_firestore) ''u7'' = None
   \<and> doc_get (fs_prefs sample_firestore) ''u7'' = None
   \<and> fst (fs_create_user toy_hash sample_firestore ''a@x.com'' ''pw1'' ''A'' ''u7'' 9)
   \<and> map fst (fs_users (snd (fs_create_user toy_hash sample_firestore ''a@x.com'' ''pw1'' ''A''
         ''u7'' 9))) = [''u9'', ''u7'']
   \<and> map fst (fs_prefs (snd (fs_create_user toy_hash sample_firestore ''a@x.com'' ''pw1'' ''A''
         ''u7'' 9))) = [''u1'', ''u7'']"
  using create_user_contract [of sample_store "''b@x.com''" toy_hash "''pw1''" "''A''" 9
      sample_firestore "''u7''"]
    create_user_contract [of sample_store "''a@x.com''" toy_hash "''pw1''" "''A''" 9
      sample_firestore "''u7''"]
  by (simp add: sample_store_def sample_firestore_def)

lemma create_then_authenticate_json:
  assumes "\<forall>u\<in>set (users s). email u \<noteq> e"
  shows "fst (create_user h s e p n now)
       \<and> authenticate_user h (snd (create_user h s e p n now)) e p
           = Some (int (length (users s)) + 1)
       \<and> u_id (last (users (snd (create_user h s e p n now)))) = int (length (users s)) + 1
       \<and> (h w \<noteq> h p \<longrightarrow> authenticate_user h (snd (create_user h s e p n now)) e w = None)
       \<and> create_user h (snd (create_user h s e p n now)) e p' n' now'
           = (False, snd (create_user h s e p n now))"
  using assms
  by (auto simp: create_user_def list_ex_iff Let_def hash_password_def authenticate_user_def
      authenticate_scan_other)

lemma create_then_authenticate_firestore:
  assumes "\<forall>(k, d)\<in>set (fs_users r). email d \<noteq> e"
  shows "fst (fs_create_user h r e p n g now)
       \<and> fs_authenticate_user h (snd (fs_create_user h r e p n g now)) e p = Some g
       \<and> (h w \<noteq> h p \<longrightarrow> fs_authenticate_user h (snd (fs_create_user h r e p n g now)) e w = None)
       \<and> fs_create_user h (snd (fs_create_user h r e p n g now)) e p' n' g' now'
           = (False, snd (fs_create_user h r e p n g now))"
  using assms
  by (auto simp: fs_create_user_def Let_def take1_empty where_eq_empty hash_password_def
      fs_authenticate_user_def where_eq_doc_set)

text \<open>
  C7. From a store with no user of email \<open>e\<close>: \<open>create_user\<close> with \<open>e\<close> and password \<open>p\<close>
  succeeds; then \<open>authenticate_user\<close> with \<open>e\<close> and \<open>p\<close> returns the id of the user just
  created (in the local store the id of the last user, one more than the number of
  users before; in Firestore the new document's id \<open>g\<close>); with a password \<open>w\<close> whose
  digest differs from that of \<open>p\<close> it returns \<open>None\<close>; and a second \<open>create_user\<close> with
  \<open>e\<close>, whatever its other arguments, returns \<open>False\<close> and changes nothing.
\<close>

theorem create_then_authenticate:
  assumes "\<forall>u\<in>set (users s). email u \<noteq> e"
    and "\<forall>(k, d)\<in>set (fs_users r). email d \<noteq> e"
  shows "(fst (create_user h s e p n now)
       \<and> authenticate_user h (snd (create_user h s e p n now)) e p
           = Some (int (length (users s)) + 1)
       \<and> u_id (last (users (snd (create_user h s e p n now)))) = int (length (users s)) + 1
       \<and> (h w \<noteq> h p \<longrightarrow> authenticate_user h (snd (create_user h s e p n now)) e w = None)
       \<and> create_user h (snd (create_user h s e p n now)) e p' n' now'
           = (False, snd (create_user h s e p n now)))
     \<and> (fst (fs_create_user h r e p n g now)
       \<and> fs_authenticate_user h (snd (fs_create_user h r e p n g now)) e p = Some g
       \<and> (h w \<noteq> h p \<longrightarrow> fs_authenticate_user h (snd (fs_create_user h r e p n g now)) e w = None)
       \<and> fs_create_user h (snd (fs_create_user h r e p n g now)) e p' n' g' now'
           = (False, snd (fs_create_user h r e p n g now)))"
  by (rule conjI [OF create_then_authenticate_json [OF assms(1)]
        create_then_authenticate_firestore [OF assms(2)]])

theorem create_then_authenticate_witness:
  "''a@x.com'' \<notin> email ` set (users sample_store)
   \<and> ''a@x.com'' \<notin> (email \<circ> snd) ` set (fs_users sample_firestore)
   \<and> toy_hash ''wrong'' \<noteq> toy_hash ''pw1''
   \<and> authenticate_user toy_hash (snd (create_user toy_hash sample_store ''a@x.com'' ''pw1'' ''A'' 9))
        ''a@x.com'' ''pw1'' = Some 2
   \<and> authenticate_user toy_hash (snd (create_user toy_hash sample_store ''a@x.com'' ''pw1'' ''A'' 9))
        ''a@x.com'' ''wrong'' = None
   \<and> fst (create_user toy_hash
        (snd (create_user toy_hash sample_store ''a@x.com'' ''pw1'' ''A'' 9))
        ''a@x.com'' ''pw2'' ''A2'' 10) = False
   \<and> fs_authenticate_user toy_hash
        (snd (fs_create_user toy_hash sample_firestore ''a@x.com'' ''pw1'' ''A'' ''u7'' 9))
        ''a@x.com'' ''pw1'' = Some ''u7''
   \<and> fs_authenticate_user toy_hash
        (snd (fs_create_user toy_hash sample_firestore ''a@x.com'' ''pw1'' ''A'' ''u7'' 9))
        ''a@x.com'' ''wrong'' = None
   \<and> fst (fs_create_user toy_hash
        (snd (fs_create_user toy_hash sample_firestore ''a@x.com'' ''pw1'' ''A'' ''u7'' 9))
        ''a@x.com'' ''pw2'' ''A2'' ''u8'' 10) = False"
  using create_then_authenticate [of sample_store "''a@x.com''" sample_firestore toy_hash
      "''pw1''" "''A''" 9 "''wrong''" "''pw2''" "''A2''" 10 "''u7''" "''u8''"]
  by (simp add: sample_store_def sample_firestore_def toy_hash_def)

section \<open>Updating preferences\<close>

lemma get_user_preferences_scan_update:
  "update_first_prefs ps u pd = Some ps' \<Longrightarrow>
   get_user_preferences_scan ps' u' =
     (if u' = u
      then \<lparr>share_data_with_ai =
              (case pd_share_data_with_ai pd of
                 None \<Rightarrow> share_data_with_ai (get_user_preferences_scan ps u)
               | Some v \<Rightarrow> truthy v),
            view_chat_history =
              (case pd_view_chat_history pd of
                 None \<Rightarrow> view_chat_history (get_user_preferences_scan ps u)
               | Some v \<Rightarrow> truthy v)\<rparr>
      else get_user_preferences_scan ps u')"
  by (induction ps arbitrary: ps') (auto simp: dict_get_def split: if_splits option.splits)

lemma update_first_prefs_None:
  "update_first_prefs ps u pd = None \<longleftrightarrow> (\<forall>p\<in>set ps. p_user_id p \<noteq> u)"
  by (induction ps) auto

lemma get_user_preferences_scan_append:
  "get_user_preferences_scan (ps @ [p]) u' =
     (if (\<exists>q\<in>set ps. p_user_id q = u') then get_user_preferences_scan ps u'
      else get_user_preferences_scan [p] u')"
  by (induction ps) auto

lemma get_user_preferences_scan_default:
  "\<forall>p\<in>set ps. p_user_id p \<noteq> u \<Longrightarrow>
   get_user_preferences_scan ps u = \<lparr>share_data_with_ai = False, view_chat_history = True\<rparr>"
  by (induction ps) auto

text \<open>
  The local store does what the contract says: after \<open>update_user_preferences\<close> a
  field the payload leaves out reads as it did before (the default when the user had
  no record), a field the payload carries reads as its truth value, and the
  preferences of every other user read as before.
\<close>

lemma update_user_preferences_json:
  "fst (update_user_preferences s u pd)
   \<and> get_user_preferences (snd (update_user_preferences s u pd)) u =
       \<lparr>share_data_with_ai =
          (case pd_share_data_with_ai pd of
             None \<Rightarrow> share_data_with_ai (get_user_preferences s u)
           | Some v \<Rightarrow> truthy v),
        view_chat_history =
          (case pd_view_chat_history pd of
             None \<Rightarrow> view_chat_history (get_user_preferences s u)
           | Some v \<Rightarrow> truthy v)\<rparr>
   \<and> (u' \<noteq> u \<longrightarrow> get_user_preferences (snd (update_user_preferences s u pd)) u'
                    = get_user_preferences s u')"
proof (cases "update_first_prefs (preferences s) u pd")
  case None
  then have no: "\<forall>p\<in>set (preferences s). p_user_id p \<noteq> u"
    by (simp add: update_first_prefs_None)
  show ?thesis
    using None no
    by (auto simp: update_user_preferences_def get_user_preferences_def
        get_user_preferences_scan_append get_user_preferences_scan_default dict_get_def
        split: option.splits)
next
  case (Some ps')
  show ?thesis
    unfolding update_user_preferences_def get_user_preferences_def
    by (simp add: Some get_user_preferences_scan_update [OF Some])
qed

text \<open>
  The Firestore manager writes both fields on every call, a field the payload leaves
  out with its default, whatever the document held.
\<close>

lemma fs_update_user_preferences_writes_defaults:
  "fs_get_user_preferences (snd (fs_update_user_preferences r u pd)) u =
     \<lparr>share_data_with_ai = truthy (dict_get (pd_share_data_with_ai pd) (PBool False)),
      view_chat_history = truthy (dict_get (pd_view_chat_history pd) (PBool True))\<rparr>"
proof -
  have get_set: "doc_get (doc_set c k d) k = Some d" for c :: "fs_prefs_doc collection" and k d
    by (induction c) auto
  show ?thesis
    by (simp add: fs_update_user_preferences_def fs_get_user_preferences_def Let_def get_set
        split: option.splits)
qed

text \<open>
  C1. The claim asks that a field absent from the payload keeps its stored value in
  both backends. For a user whose stored \<open>share_data_with_ai\<close> is \<open>True\<close> and the
  payload \<open>{"view_chat_history": False}\<close>, the local store keeps \<open>True\<close> while the
  Firestore manager stores \<open>False\<close>: the two backends differ, and the Firestore one
  loses the stored value.
\<close>

theorem update_user_preferences_firestore_resets:
  "share_data_with_ai (get_user_preferences sample_store 1)
   \<and> share_data_with_ai
        (get_user_preferences (snd (update_user_preferences sample_store 1 only_view)) 1)
   \<and> share_data_with_ai (fs_get_user_preferences sample_firestore ''u1'')
   \<and> \<not> share_data_with_ai
        (fs_get_user_preferences
           (snd (fs_update_user_preferences sample_firestore ''u1'' only_view)) ''u1'')"
  by (simp add: sample_store_def sample_firestore_def only_view_def get_user_preferences_def
      update_user_preferences_def fs_get_user_preferences_def fs_update_user_preferences_def
      dict_get_def)

section \<open>Saving decisions\<close>


lemma dict_update_payload: "dict_update found payload = payload"
  by (cases found, cases payload) (simp add: dict_update_def)

lemma merge_decision_payload: "merge_decision (old :: ('u, 't) decision_doc) payload = payload"
  by (cases old, cases payload) (simp add: merge_decision_def)

lemma find_decision_None:
  "find_decision ds i u = None \<longleftrightarrow> (\<forall>d\<in>set ds. \<not> (d_id d = i \<and> d_user_id d = u))"
  by (induction ds) auto

lemma find_decision_Some:
  "find_decision ds i u = Some k \<Longrightarrow> k < length ds \<and> d_id (ds ! k) = i \<and> d_user_id (ds ! k) = u"
  by (induction ds arbitrary: k) (auto split: if_splits)

lemma find_decision_update:
  "find_decision ds i u = Some k \<Longrightarrow> d_id p = i \<Longrightarrow> d_user_id p = u \<Longrightarrow>
   find_decision (ds[k := p]) i u = Some k"
  by (induction ds arbitrary: k) (auto split: if_splits)

lemma save_decision_decisions:
  "decisions (snd (save_decision s u dd g t)) =
     (case find_decision (decisions s) (choose_id dd g) u of
        Some k \<Rightarrow> (decisions s)[k := json_payload (choose_id dd g) u dd t]
      | None \<Rightarrow> json_payload (choose_id dd g) u dd t # decisions s)"
  by (simp add: save_decision_def Let_def dict_update_payload split: option.splits)

lemma save_decision_id: "fst (save_decision s u dd g t) = choose_id dd g"
  by (simp add: save_decision_def Let_def)

lemma json_payload_key [simp]:
  "d_id (json_payload i u dd t) = i" "d_user_id (json_payload i u dd t) = u"
  "created_at (json_payload i u dd t) = t"
  by (simp_all add: json_payload_def)


lemma distinct_keys_update:
  assumes "distinct (map decision_key ds)" "k < length ds" "decision_key p = decision_key (ds ! k)"
  shows "distinct (map decision_key (ds[k := p]))"
proof -
  have "map decision_key (ds[k := p]) = map decision_key ds"
    using assms(2,3) by (simp add: map_update list_update_same_conv)
  then show ?thesis using assms(1) by simp
qed

lemma save_decision_keeps_distinct:
  assumes "distinct (map decision_key (decisions s))"
  shows "distinct (map decision_key (decisions (snd (save_decision s u dd g t))))"
proof (cases "find_decision (decisions s) (choose_id dd g) u")
  case None
  then have "\<forall>d\<in>set (decisions s). \<not> (d_id d = choose_id dd g \<and> d_user_id d = u)"
    by (simp add: find_decision_None)
  then show ?thesis
    using assms by (auto simp: save_decision_decisions None decision_key_def)
next
  case (Some k)
  then show ?thesis
    using assms find_decision_Some [OF Some]
    by (simp add: save_decision_decisions distinct_keys_update decision_key_def)
qed

lemma filter_key_distinct:
  "distinct (map decision_key ds) \<Longrightarrow> k < length ds \<Longrightarrow>
   filter (\<lambda>d. decision_key d = decision_key (ds ! k)) ds = [ds ! k]"
proof (induction ds arbitrary: k)
  case Nil
  then show ?case by simp
next
  case (Cons d ds)
  show ?case
  proof (cases k)
    case 0
    have "filter (\<lambda>x. decision_key x = decision_key d) ds = []"
      using Cons.prems(1) by (auto simp: filter_empty_conv image_iff)
    then show ?thesis using 0 by simp
  next
    case (Suc j)
    then have j: "j < length ds" using Cons.prems(2) by simp
    then have "decision_key (ds ! j) \<noteq> decision_key d"
      using Cons.prems(1) by (metis distinct.simps(2) list.simps(9) nth_map nth_mem length_map)
    then show ?thesis
      using Suc Cons.IH [OF _ j] Cons.prems(1) by simp
  qed
qed

lemma filter_owned_distinct:
  assumes "distinct (map decision_key ds)" "k < length ds"
    and "d_id (ds ! k) = i" "d_user_id (ds ! k) = u"
  shows "filter (\<lambda>d. d_id d = i \<and> d_user_id d = u) ds = [ds ! k]"
proof -
  have eq: "(\<lambda>d. d_id d = i \<and> d_user_id d = u) = (\<lambda>d. decision_key d = decision_key (ds ! k))"
    using assms(3,4) by (auto simp: decision_key_def fun_eq_iff)
  show ?thesis
    unfolding eq by (rule filter_key_distinct [OF assms(1,2)])
qed

lemma save_decision_finds:
  "\<exists>k. find_decision (decisions (snd (save_decision s u dd g t))) (choose_id dd g) u = Some k
       \<and> k < length (decisions (snd (save_decision s u dd g t)))
       \<and> decisions (snd (save_decision s u dd g t)) ! k = json_payload (choose_id dd g) u dd t"
proof (cases "find_decision (decisions s) (choose_id dd g) u")
  case None
  then show ?thesis by (simp add: save_decision_decisions)
next
  case (Some k)
  then show ?thesis
    using find_decision_Some [OF Some]
    by (simp add: save_decision_decisions find_decision_update)
qed


lemma save_decision_upsert_json:
  assumes inv: "distinct (map decision_key (decisions s))"
    and id1: "choose_id dd g1 = i" and id2: "choose_id dd g2 = i" and id3: "choose_id dd' g3 = i"
  shows "let s1 = snd (save_decision s u dd g1 t1);
             s2 = snd (save_decision s1 u dd g2 t2);
             s3 = snd (save_decision s2 u dd' g3 t3)
         in filter (\<lambda>d. d_id d = i \<and> d_user_id d = u) (decisions s2) = [json_payload i u dd t2]
          \<and> length (decisions s2) = length (decisions s1)
          \<and> filter (\<lambda>d. d_id d = i \<and> d_user_id d = u) (decisions s3) = [json_payload i u dd' t3]
          \<and> length (decisions s3) = length (decisions s1)
          \<and> (\<exists>k<length (decisions s1).
                d_id (decisions s1 ! k) = i \<and> d_user_id (decisions s1 ! k) = u
                \<and> decisions s2 = (decisions s1)[k := json_payload i u dd t2]
                \<and> decisions s3 = (decisions s1)[k := json_payload i u dd' t3])"
proof -
  define s1 where "s1 = snd (save_decision s u dd g1 t1)"
  define s2 where "s2 = snd (save_decision s1 u dd g2 t2)"
  define s3 where "s3 = snd (save_decision s2 u dd' g3 t3)"
  obtain k where k: "find_decision (decisions s1) i u = Some k" "k < length (decisions s1)"
    using save_decision_finds [of s u dd g1 t1] by (auto simp: s1_def id1)
  have key1: "d_id (decisions s1 ! k) = i \<and> d_user_id (decisions s1 ! k) = u"
    using find_decision_Some [OF k(1)] by simp
  have d2: "decisions s2 = (decisions s1)[k := json_payload i u dd t2]"
    by (simp add: s2_def save_decision_decisions id2 k(1))
  have f2: "find_decision (decisions s2) i u = Some k"
    unfolding d2 by (rule find_decision_update [OF k(1)]) simp_all
  have d3: "decisions s3 = (decisions s1)[k := json_payload i u dd' t3]"
    by (simp add: s3_def save_decision_decisions id3 f2) (simp add: d2)
  have dist1: "distinct (map decision_key (decisions s1))"
    unfolding s1_def by (rule save_decision_keeps_distinct [OF inv])
  have dist2: "distinct (map decision_key (decisions s2))"
    unfolding s2_def by (rule save_decision_keeps_distinct [OF dist1])
  have dist3: "distinct (map decision_key (decisions s3))"
    unfolding s3_def by (rule save_decision_keeps_distinct [OF dist2])
  have k2: "k < length (decisions s2)" "k < length (decisions s3)"
    using k(2) by (simp_all add: d2 d3)
  have one2: "filter (\<lambda>d. d_id d = i \<and> d_user_id d = u) (decisions s2) = [json_payload i u dd t2]"
    using filter_owned_distinct [OF dist2 k2(1), of i u] k(2) by (simp add: d2)
  have one3: "filter (\<lambda>d. d_id d = i \<and> d_user_id d = u) (decisions s3) = [json_payload i u dd' t3]"
    using filter_owned_distinct [OF dist3 k2(2), of i u] k(2) by (simp add: d3)
  have "filter (\<lambda>d. d_id d = i \<and> d_user_id d = u) (decisions s2) = [json_payload i u dd t2]
      \<and> length (decisions s2) = length (decisions s1)
      \<and> filter (\<lambda>d. d_id d = i \<and> d_user_id d = u) (decisions s3) = [json_payload i u dd' t3]
      \<and> length (decisions s3) = length (decisions s1)
      \<and> (\<exists>k<length (decisions s1).
            d_id (decisions s1 ! k) = i \<and> d_user_id (decisions s1 ! k) = u
            \<and> decisions s2 = (decisions s1)[k := json_payload i u dd t2]
            \<and> decisions s3 = (decisions s1)[k := json_payload i u dd' t3])"
    using one2 one3 d2 d3 k(2) key1 by auto
  then show ?thesis
    unfolding Let_def s1_def s2_def s3_def .
qed

lemma doc_get_doc_set: "doc_get (doc_set c k d) k' = (if k' = k then Some d else doc_get c k')"
  by (induction c) auto

lemma doc_get_None: "doc_get c k = None \<longleftrightarrow> k \<notin> fst ` set c"
  by (induction c) (force split: if_splits)+

lemma map_fst_doc_set:
  "map fst (doc_set c k d) = (if k \<in> fst ` set c then map fst c else map fst c @ [k])"
  by (induction c) (force split: if_splits)+

lemma distinct_doc_set: "distinct (map fst c) \<Longrightarrow> distinct (map fst (doc_set c k d))"
  by (simp add: map_fst_doc_set)

lemma filter_doc_id:
  "distinct (map fst c) \<Longrightarrow> doc_get c k = Some d \<Longrightarrow> filter (\<lambda>(k', d'). k' = k) c = [(k, d)]"
proof (induction c)
  case Nil
  then show ?case by simp
next
  case (Cons x c)
  obtain k' d' where x: "x = (k', d')" by (cases x)
  show ?case
  proof (cases "k' = k")
    case True
    then have "filter (\<lambda>(k', d'). k' = k) c = []"
      using Cons.prems(1) x by (auto simp: filter_empty_conv image_iff)
    then show ?thesis using True x Cons.prems(2) by simp
  next
    case False
    then show ?thesis using x Cons by simp
  qed
qed

lemma fs_save_decision_decisions:
  "fs_decisions (snd (fs_save_decision r u' dd g t)) =
     doc_set (fs_decisions r) (choose_id dd g) (fs_payload u' dd t)"
  by (simp add: fs_save_decision_def Let_def merge_decision_payload split: option.splits)

lemma save_decision_upsert_firestore:
  assumes inv: "distinct (map fst (fs_decisions r))"
    and id1: "choose_id dd g1 = i" and id2: "choose_id dd g2 = i" and id3: "choose_id dd' g3 = i"
  shows "let r1 = snd (fs_save_decision r u' dd g1 t1);
             r2 = snd (fs_save_decision r1 u' dd g2 t2);
             r3 = snd (fs_save_decision r2 u' dd' g3 t3)
         in filter (\<lambda>(k, d). k = i) (fs_decisions r2) = [(i, fs_payload u' dd t2)]
          \<and> map fst (fs_decisions r2) = map fst (fs_decisions r1)
          \<and> filter (\<lambda>(k, d). k = i) (fs_decisions r3) = [(i, fs_payload u' dd' t3)]
          \<and> map fst (fs_decisions r3) = map fst (fs_decisions r1)"
proof -
  define c1 where "c1 = doc_set (fs_decisions r) i (fs_payload u' dd t1)"
  define c2 where "c2 = doc_set c1 i (fs_payload u' dd t2)"
  define c3 where "c3 = doc_set c2 i (fs_payload u' dd' t3)"
  have in1: "i \<in> fst ` set c1"
    using doc_get_doc_set [of "fs_decisions r" i "fs_payload u' dd t1" i] doc_get_None [of c1 i]
    by (simp add: c1_def)
  have m2: "map fst c2 = map fst c1"
    by (simp add: c2_def map_fst_doc_set in1)
  have in2: "i \<in> fst ` set c2"
    using in1 arg_cong [OF m2, of set] by simp
  have m3: "map fst c3 = map fst c1"
    by (simp add: c3_def map_fst_doc_set in2 m2)
  have dist1: "distinct (map fst c1)"
    unfolding c1_def by (rule distinct_doc_set [OF inv])
  have one2: "filter (\<lambda>(k, d). k = i) c2 = [(i, fs_payload u' dd t2)]"
    by (rule filter_doc_id) (simp_all add: m2 dist1, simp add: c2_def doc_get_doc_set)
  have one3: "filter (\<lambda>(k, d). k = i) c3 = [(i, fs_payload u' dd' t3)]"
    by (rule filter_doc_id) (simp_all add: m3 dist1, simp add: c3_def doc_get_doc_set)
  have "filter (\<lambda>(k, d). k = i) c2 = [(i, fs_payload u' dd t2)]
      \<and> map fst c2 = map fst c1
      \<and> filter (\<lambda>(k, d). k = i) c3 = [(i, fs_payload u' dd' t3)]
      \<and> map fst c3 = map fst c1"
    using one2 one3 m2 m3 by blast
  then show ?thesis
    unfolding Let_def fs_save_decision_decisions id1 id2 id3 c1_def c2_def c3_def .
qed


text \<open>
  The stores the operations build never hold two decisions with the same id and
  owner (locally) or two documents with the same id (remotely).
\<close>

lemma empty_store_distinct: "distinct (map decision_key (decisions empty_store))"
  by (simp add: empty_store_def)

lemma delete_decision_keeps_distinct:
  "distinct (map decision_key (decisions s)) \<Longrightarrow>
   distinct (map decision_key (decisions (snd (delete_decision s u i))))"
  by (simp add: delete_decision_def Let_def distinct_map_filter)

lemma fs_save_decision_keeps_distinct:
  "distinct (map fst (fs_decisions r)) \<Longrightarrow>
   distinct (map fst (fs_decisions (snd (fs_save_decision r u' dd g t))))"
  by (simp add: fs_save_decision_decisions distinct_doc_set)

text \<open>
  C2, as stated, fails for an empty decision id: \<open>decision_data.get("id") or _gen_id()\<close>
  takes a supplied empty string as no id, so each call generates a fresh one and two
  calls with the same (empty) id, the same owner and the same field values leave two
  stored records, in the local store and in the Firestore collection alike.
\<close>

theorem save_decision_empty_id_counterexample:
  "map d_id (decisions (snd (save_decision
        (snd (save_decision (empty_store :: nat json_store) 1
           (sample_data (Some []) ''Move'') ''g1'' 10)) 1
        (sample_data (Some []) ''Move'') ''g2'' 11))) = [''g2'', ''g1'']
   \<and> length (filter (\<lambda>d. d_user_id d = 1 \<and> title d = PStr ''Move'')
        (decisions (snd (save_decision
           (snd (save_decision (empty_store :: nat json_store) 1
              (sample_data (Some []) ''Move'') ''g1'' 10)) 1
           (sample_data (Some []) ''Move'') ''g2'' 11)))) = 2
   \<and> map fst (fs_decisions (snd (fs_save_decision
        (snd (fs_save_decision (empty_firestore :: nat firestore) ''u1''
           (sample_data (Some []) ''Move'') ''g1'' 10)) ''u1''
        (sample_data (Some []) ''Move'') ''g2'' 11))) = [''g1'', ''g2'']"
  by (simp add: empty_store_def empty_firestore_def sample_data_def choose_id_def
      save_decision_def fs_save_decision_def Let_def json_payload_def fs_payload_def
      dict_get_def)

text \<open>
  C2, amended. Take a store in which no two decisions share id and owner (every store
  built by the operations is one), a non-empty decision id \<open>i\<close> and three calls of
  \<open>save_decision\<close> by the same owner that supply \<open>i\<close>: two with the same field values,
  a third with changed ones. After the second call exactly one stored record has that
  id and owner, and each of its fields holds the value supplied for it, or the
  field's default when none was supplied (\<open>None\<close>; \<open>[]\<close> for constraints, alternatives
  and tags; \<open>"private"\<close> for the memory layer), with the time of that call as
  \<open>created_at\<close>. The third call overwrites that record with its own values: the list
  is as long as it was, the record sits at the position it had and every other record
  is untouched. In the Firestore manager the collection likewise holds one document
  of that id after each call, with the values last supplied, and its documents keep
  their order.
\<close>

theorem save_decision_upsert:
  assumes "distinct (map decision_key (decisions s))"
    and "distinct (map fst (fs_decisions r))"
    and "dd_id dd = Some i" and "dd_id dd' = Some i" and "i \<noteq> []"
  shows "(let s1 = snd (save_decision s u dd g1 t1);
              s2 = snd (save_decision s1 u dd g2 t2);
              s3 = snd (save_decision s2 u dd' g3 t3);
              stored = (\<lambda>data t.
                \<lparr>d_user_id = u,
                 title = (case dd_title data of None \<Rightarrow> PNone | Some v \<Rightarrow> v),
                 description = (case dd_description data of None \<Rightarrow> PNone | Some v \<Rightarrow> v),
                 goal = (case dd_goal data of None \<Rightarrow> PNone | Some v \<Rightarrow> v),
                 constraints = (case dd_constraints data of None \<Rightarrow> PList [] | Some v \<Rightarrow> v),
                 alternatives = (case dd_alternatives data of None \<Rightarrow> PList [] | Some v \<Rightarrow> v),
                 final_choice = (case dd_final_choice data of None \<Rightarrow> PNone | Some v \<Rightarrow> v),
                 reasoning = (case dd_reasoning data of None \<Rightarrow> PNone | Some v \<Rightarrow> v),
                 expected_outcome =
                   (case dd_expected_outcome data of None \<Rightarrow> PNone | Some v \<Rightarrow> v),
                 memory_layer =
                   (case dd_memory_layer data of None \<Rightarrow> PStr ''private'' | Some v \<Rightarrow> v),
                 tags = (case dd_tags data of None \<Rightarrow> PList [] | Some v \<Rightarrow> v),
                 reflection = (case dd_reflection data of None \<Rightarrow> PNone | Some v \<Rightarrow> v),
                 outcome_status =
                   (case dd_outcome_status data of None \<Rightarrow> PNone | Some v \<Rightarrow> v),
                 created_at = t,
                 d_id = i\<rparr>)
          in fst (save_decision s u dd g1 t1) = i
           \<and> filter (\<lambda>d. d_id d = i \<and> d_user_id d = u) (decisions s2) = [stored dd t2]
           \<and> length (decisions s2) = length (decisions s1)
           \<and> filter (\<lambda>d. d_id d = i \<and> d_user_id d = u) (decisions s3) = [stored dd' t3]
           \<and> length (decisions s3) = length (decisions s1)
           \<and> (\<exists>k<length (decisions s1).
                 d_id (decisions s1 ! k) = i \<and> d_user_id (decisions s1 ! k) = u
                 \<and> decisions s2 = (decisions s1)[k := stored dd t2]
                 \<and> decisions s3 = (decisions s1)[k := stored dd' t3]))
       \<and> (let r1 = snd (fs_save_decision r u' dd g1 t1);
              r2 = snd (fs_save_decision r1 u' dd g2 t2);
              r3 = snd (fs_save_decision r2 u' dd' g3 t3);
              stored = (\<lambda>data t.
                \<lparr>d_user_id = u',
                 title = (case dd_title data of None \<Rightarrow> PNone | Some v \<Rightarrow> v),
                 description = (case dd_description data of None \<Rightarrow> PNone | Some v \<Rightarrow> v),
                 goal = (case dd_goal data of None \<Rightarrow> PNone | Some v \<Rightarrow> v),
                 constraints = (case dd_constraints data of None \<Rightarrow> PList [] | Some v \<Rightarrow> v),
                 alternatives = (case dd_alternatives data of None \<Rightarrow> PList [] | Some v \<Rightarrow> v),
                 final_choice = (case dd_final_choice data of None \<Rightarrow> PNone | Some v \<Rightarrow> v),
                 reasoning = (case dd_reasoning data of None \<Rightarrow> PNone | Some v \<Rightarrow> v),
                 expected_outcome =
                   (case dd_expected_outcome data of None \<Rightarrow> PNone | Some v \<Rightarrow> v),
                 memory_layer =
                   (case dd_memory_layer data of None \<Rightarrow> PStr ''private'' | Some v \<Rightarrow> v),
                 tags = (case dd_tags data of None \<Rightarrow> PList [] | Some v \<Rightarrow> v),
                 reflection = (case dd_reflection data of None \<Rightarrow> PNone | Some v \<Rightarrow> v),
                 outcome_status =
                   (case dd_outcome_status data of None \<Rightarrow> PNone | Some v \<Rightarrow> v),
                 created_at = t\<rparr>)
          in fst (fs_save_decision r u' dd g1 t1) = i
           \<and> filter (\<lambda>(k, d). k = i) (fs_decisions r2) = [(i, stored dd t2)]
           \<and> map fst (fs_decisions r2) = map fst (fs_decisions r1)
           \<and> filter (\<lambda>(k, d). k = i) (fs_decisions r3) = [(i, stored dd' t3)]
           \<and> map fst (fs_decisions r3) = map fst (fs_decisions r1))"
proof -
  have c: "choose_id dd g1 = i" "choose_id dd g2 = i" "choose_id dd' g3 = i"
    using assms(3,4,5) by (simp_all add: choose_id_def)
  note J = save_decision_upsert_json [OF assms(1) c, of u t1 t2 t3,
      unfolded Let_def json_payload_def dict_get_def]
  note F = save_decision_upsert_firestore [OF assms(2) c, of u' t1 t2 t3,
      unfolded Let_def fs_payload_def dict_get_def]
  have ids: "fst (save_decision s u dd g1 t1) = i" "fst (fs_save_decision r u' dd g1 t1) = i"
    by (simp_all add: save_decision_id fs_save_decision_def Let_def c)
  show ?thesis
    unfolding Let_def using J F ids by blast
qed

theorem save_decision_upsert_witness:
  "distinct (map decision_key (decisions sample_store))
   \<and> distinct (map fst (fs_decisions sample_firestore))
   \<and> dd_id (sample_data (Some ''d2'') ''Move'') = Some ''d2''
   \<and> dd_id (sample_data (Some ''d2'') ''Stay'') = Some ''d2''
   \<and> ''d2'' \<noteq> []
   \<and> map decision_key (decisions (snd (save_decision
        (snd (save_decision (snd (save_decision sample_store 1
           (sample_data (Some ''d2'') ''Move'') ''g1'' 10)) 1
           (sample_data (Some ''d2'') ''Move'') ''g2'' 11)) 1
        (sample_data (Some ''d2'') ''Stay'') ''g3'' 12)))
       = [(''d1'', 2), (''d2'', 1), (''d3'', 1)]
   \<and> map title (filter (\<lambda>d. d_id d = ''d2'' \<and> d_user_id d = 1) (decisions (snd (save_decision
        (snd (save_decision sample_store 1
           (sample_data (Some ''d2'') ''Move'') ''g1'' 10)) 1
        (sample_data (Some ''d2'') ''Move'') ''g2'' 11))))
       = [PStr ''Move'']
   \<and> map title (filter (\<lambda>d. d_id d = ''d2'' \<and> d_user_id d = 1) (decisions (snd (save_decision
        (snd (save_decision (snd (save_decision sample_store 1
           (sample_data (Some ''d2'') ''Move'') ''g1'' 10)) 1
           (sample_data (Some ''d2'') ''Move'') ''g2'' 11)) 1
        (sample_data (Some ''d2'') ''Stay'') ''g3'' 12))))
       = [PStr ''Stay'']
   \<and> map (\<lambda>(k, d). (k, title d, memory_layer d, created_at d))
        (filter (\<lambda>(k, d). k = ''d2'') (fs_decisions (snd (fs_save_decision
          (snd (fs_save_decision (snd (fs_save_decision sample_firestore ''u1''
             (sample_data (Some ''d2'') ''Move'') ''g1'' 10)) ''u1''
             (sample_data (Some ''d2'') ''Move'') ''g2'' 11)) ''u1''
          (sample_data (Some ''d2'') ''Stay'') ''g3'' 12))))
       = [(''d2'', PStr ''Stay'', PStr ''private'', 12)]"
  using save_decision_upsert [where s = sample_store and r = sample_firestore
      and dd = "sample_data (Some ''d2'') ''Move''" and dd' = "sample_data (Some ''d2'') ''Stay''"
      and i = "''d2''" and u = 1 and u' = "''u1''" and ?g1.0 = "''g1''" and ?g2.0 = "''g2''"
      and ?g3.0 = "''g3''" and ?t1.0 = 10 and ?t2.0 = 11 and ?t3.0 = 12]
  by (simp add: sample_store_def sample_firestore_def sample_decision_def sample_data_def
      decision_key_def choose_id_def save_decision_def fs_save_decision_def Let_def
      dict_update_payload merge_decision_payload json_payload_def fs_payload_def
      decision_doc.truncate_def dict_get_def)


section \<open>Creation time of saved decisions\<close>


lemma get_decision_scan_find:
  "find_decision ds i u = Some k \<Longrightarrow> get_decision_scan ds u i = Some (ds ! k)"
  by (induction ds arbitrary: k) (auto split: if_splits)

lemma save_decision_reads_back:
  "get_decision (snd (save_decision s u dd g t)) u (fst (save_decision s u dd g t))
     = Some (json_payload (choose_id dd g) u dd t)"
  using save_decision_finds [of s u dd g t]
  by (auto simp: get_decision_def save_decision_id dest: get_decision_scan_find)

lemma sort_descending_set [simp]: "set (sort_descending f xs) = set xs"
  by (simp add: sort_descending_def)

lemma sort_descending_mset [simp]: "mset (sort_descending f xs) = mset xs"
  by (simp add: sort_descending_def)

lemma sort_descending_sorted:
  "sorted_wrt (\<lambda>a b. f a \<ge> f b) (sort_descending f xs)"
proof -
  have "sorted (map f (sort_key f (rev xs)))" by simp
  then have "sorted_wrt (\<lambda>a b. f a \<le> f b) (sort_key f (rev xs))"
    by (simp add: sorted_map)
  then show ?thesis
    by (simp add: sort_descending_def sorted_wrt_rev)
qed

lemma sort_descending_length [simp]: "length (sort_descending f xs) = length xs"
  by (simp add: sort_descending_def)

lemma hd_sort_descending:
  assumes "x \<in> set xs" and "\<forall>y\<in>set xs. y = x \<or> f y < f x"
  shows "hd (sort_descending f xs) = x"
proof -
  let ?ys = "sort_descending f xs"
  have ne: "?ys \<noteq> []" using assms(1) by (metis empty_iff list.set(1) sort_descending_set)
  then obtain y ys where ys: "?ys = y # ys" by (cases ?ys) auto
  have "x \<in> set ?ys" using assms(1) by simp
  then have "f x \<le> f y"
    using sort_descending_sorted [of f xs] ys by auto
  moreover have "y \<in> set xs" using ys by (metis list.set_intros(1) sort_descending_set)
  ultimately have "y = x" using assms(2) by force
  then show ?thesis using ys by simp
qed


lemma save_decision_front_json:
  assumes "\<forall>d\<in>set (decisions s). d_user_id d = u \<longrightarrow> created_at d < now"
  shows "hd (get_user_decisions (snd (save_decision s u dd g now)) u None)
           = json_payload (choose_id dd g) u dd now"
proof -
  let ?p = "json_payload (choose_id dd g) u dd now"
  let ?ds' = "decisions (snd (save_decision s u dd g now))"
  have mem: "?p \<in> set ?ds'"
    using save_decision_finds [of s u dd g now] by (metis nth_mem)
  have sub: "set ?ds' \<subseteq> insert ?p (set (decisions s))"
    by (auto simp: save_decision_decisions split: option.splits
        dest: set_update_subset_insert [THEN subsetD])
  have "hd (sort_descending created_at (filter (\<lambda>d. d_user_id d = u) ?ds')) = ?p"
  proof (rule hd_sort_descending)
    show "?p \<in> set (filter (\<lambda>d. d_user_id d = u) ?ds')"
      using mem by simp
    show "\<forall>y\<in>set (filter (\<lambda>d. d_user_id d = u) ?ds'). y = ?p \<or> created_at y < created_at ?p"
      using sub assms by auto
  qed
  then show ?thesis
    by (simp add: get_user_decisions_def)
qed

lemma doc_set_mem: "(k, d) \<in> set (doc_set c k d)"
  by (induction c) auto

lemma doc_set_subset: "set (doc_set c k d) \<subseteq> insert (k, d) (set c)"
  by (induction c) (auto split: if_splits)

lemma fs_payload_fields [simp]:
  "d_user_id (fs_payload u dd t) = u" "created_at (fs_payload u dd t) = t"
  by (simp_all add: fs_payload_def)

lemma fs_save_decision_id: "fst (fs_save_decision r u dd g t) = choose_id dd g"
  by (simp add: fs_save_decision_def Let_def)

lemma fs_save_decision_reads_back:
  "fs_get_decision (snd (fs_save_decision r u dd g t)) u (fst (fs_save_decision r u dd g t))
     = Some (with_id (choose_id dd g, fs_payload u dd t))"
  by (simp add: fs_get_decision_def fs_save_decision_decisions fs_save_decision_id
      doc_get_doc_set)

lemma save_decision_front_firestore:
  assumes "\<forall>(k, d)\<in>set (fs_decisions r). d_user_id d = u \<longrightarrow> created_at d < now"
  shows "fs_get_user_decisions (snd (fs_save_decision r u dd g now)) u None \<noteq> Inr []
       \<and> map_sum id hd (fs_get_user_decisions (snd (fs_save_decision r u dd g now)) u None)
           = Inr (with_id (choose_id dd g, fs_payload u dd now))"
proof -
  let ?p = "(choose_id dd g, fs_payload u dd now)"
  let ?c' = "doc_set (fs_decisions r) (choose_id dd g) (fs_payload u dd now)"
  let ?q = "where_eq d_user_id u ?c'"
  have mem: "?p \<in> set ?q"
    by (simp add: where_eq_def doc_set_mem)
  have all: "\<forall>y\<in>set ?q. y = ?p \<or> (\<lambda>(k, d). created_at d) y < (\<lambda>(k, d). created_at d) ?p"
    using doc_set_subset [of "fs_decisions r" "choose_id dd g" "fs_payload u dd now"] assms
    by (auto simp: where_eq_def)
  have hd: "hd (sort_descending (\<lambda>(k, d). created_at d) ?q) = ?p"
    by (rule hd_sort_descending [OF mem all])
  have ne: "sort_descending (\<lambda>(k, d). created_at d) ?q \<noteq> []"
    using mem by (metis empty_iff list.set(1) sort_descending_set)
  show ?thesis
    using hd ne
    by (simp add: fs_get_user_decisions_def fs_save_decision_decisions hd_map)
qed


lemma with_id_fields [simp]:
  "d_id (with_id (k, d)) = k" "created_at (with_id (k, d)) = created_at d"
  "d_user_id (with_id (k, d)) = d_user_id d"
  by (cases d; simp add: with_id_def decision_doc.defs decision.defs)+

text \<open>
  C10. Whatever the store holds, after \<open>save_decision\<close> at clock reading \<open>now\<close> the
  record read back under the returned id has \<open>created_at = now\<close>: when the id was
  already stored for that owner, the timestamp it had is gone. When \<open>now\<close> is later
  than the timestamps of the owner's stored decisions (the clock moves forward), the
  saved record is the first that \<open>get_user_decisions\<close> returns. Both hold for the local
  store and for the Firestore manager.
\<close>

theorem save_decision_overwrites_created_at:
  "(map_option created_at
      (get_decision (snd (save_decision s u dd g now)) u (fst (save_decision s u dd g now)))
      = Some now
    \<and> ((\<forall>d\<in>set (decisions s). d_user_id d = u \<longrightarrow> created_at d < now) \<longrightarrow>
         hd (get_user_decisions (snd (save_decision s u dd g now)) u None)
           = json_payload (fst (save_decision s u dd g now)) u dd now))
   \<and> (map_option created_at
      (fs_get_decision (snd (fs_save_decision r u' dd g now)) u'
         (fst (fs_save_decision r u' dd g now)))
      = Some now
    \<and> ((\<forall>(k, d)\<in>set (fs_decisions r). d_user_id d = u' \<longrightarrow> created_at d < now) \<longrightarrow>
         map_sum id hd (fs_get_user_decisions (snd (fs_save_decision r u' dd g now)) u' None)
           = Inr (with_id (fst (fs_save_decision r u' dd g now), fs_payload u' dd now))))"
  using save_decision_front_json [of s u now dd g]
    save_decision_front_firestore [of r u' now dd g]
    save_decision_reads_back [of s u dd g now] fs_save_decision_reads_back [of r u' dd g now]
  by (simp add: save_decision_id fs_save_decision_id)

theorem save_decision_overwrites_created_at_witness:
  "list_all (\<lambda>d. d_user_id d = 1 \<longrightarrow> created_at d < 10) (decisions sample_store)
   \<and> list_all (\<lambda>(k, d). d_user_id d = ''u1'' \<longrightarrow> created_at d < 10)
         (fs_decisions sample_firestore)
   \<and> map_option created_at (get_decision sample_store 1 ''d2'') = Some 3
   \<and> map_option created_at
        (get_decision (snd (save_decision sample_store 1 (sample_data (Some ''d2'') ''Move'')
           ''g1'' 10)) 1 ''d2'') = Some 10
   \<and> map d_id (get_user_decisions sample_store 1 None) = [''d3'', ''d2'']
   \<and> d_id (hd (get_user_decisions (snd (save_decision sample_store 1
        (sample_data (Some ''d2'') ''Move'') ''g1'' 10)) 1 None)) = ''d2''
   \<and> map_sum id (d_id \<circ> hd) (fs_get_user_decisions sample_firestore ''u1'' None) = Inr ''d3''
   \<and> map_sum id (d_id \<circ> hd) (fs_get_user_decisions (snd (fs_save_decision sample_firestore ''u1''
        (sample_data (Some ''d2'') ''Move'') ''g1'' 10)) ''u1'' None) = Inr ''d2''"
  using save_decision_overwrites_created_at [of sample_store 1
      "sample_data (Some ''d2'') ''Move''" "''g1''" 10 sample_firestore "''u1''"]
  by (simp add: sample_store_def sample_firestore_def sample_decision_def sample_data_def
      choose_id_def save_decision_def fs_save_decision_def Let_def get_decision_def
      get_user_decisions_def fs_get_user_decisions_def sort_descending_def where_eq_def
      dict_update_payload merge_decision_payload json_payload_def fs_payload_def
      decision_doc.truncate_def dict_get_def)

section \<open>Listing decisions\<close>


lemma sorted_wrt_take_drop:
  "sorted_wrt P xs \<Longrightarrow> \<forall>a\<in>set (take n xs). \<forall>b\<in>set (drop n xs). P a b"
  using sorted_wrt_append [of P "take n xs" "drop n xs"] by simp

lemma get_user_decisions_json:
  "mset (get_user_decisions s u None) = mset (filter (\<lambda>d. d_user_id d = u) (decisions s))
   \<and> sorted_wrt (\<lambda>a b. created_at a \<ge> created_at b) (get_user_decisions s u None)
   \<and> get_user_decisions s u (Some 0) = get_user_decisions s u None
   \<and> (0 < n \<longrightarrow>
        get_user_decisions s u (Some n) = take (nat n) (get_user_decisions s u None)
        \<and> int (length (get_user_decisions s u (Some n))) \<le> n
        \<and> sorted_wrt (\<lambda>a b. created_at a \<ge> created_at b) (get_user_decisions s u (Some n))
        \<and> (\<forall>a\<in>set (get_user_decisions s u (Some n)).
              \<forall>b\<in>set (drop (nat n) (get_user_decisions s u None)).
                created_at a \<ge> created_at b))"
proof -
  let ?all = "get_user_decisions s u None"
  have all: "?all = sort_descending created_at (filter (\<lambda>d. d_user_id d = u) (decisions s))"
    by (simp add: get_user_decisions_def)
  have srt: "sorted_wrt (\<lambda>a b. created_at a \<ge> created_at b) ?all"
    unfolding all by (rule sort_descending_sorted)
  have lim: "get_user_decisions s u (Some n) = take (nat n) ?all" if "0 < n"
    using that by (simp add: get_user_decisions_def slice_to_def)
  have zero: "get_user_decisions s u (Some 0) = ?all"
    by (simp add: get_user_decisions_def)
  have ms: "mset ?all = mset (filter (\<lambda>d. d_user_id d = u) (decisions s))"
    unfolding all by simp
  show ?thesis
    using ms srt zero lim sorted_wrt_take [OF srt, of "nat n"]
      sorted_wrt_take_drop [OF srt, of "nat n"]
    by auto
qed

lemma get_user_decisions_firestore:
  "\<not> isl (fs_get_user_decisions r u None)
   \<and> mset (projr (fs_get_user_decisions r u None))
        = mset (map with_id (filter (\<lambda>(k, d). d_user_id d = u) (fs_decisions r)))
   \<and> sorted_wrt (\<lambda>a b. created_at a \<ge> created_at b) (projr (fs_get_user_decisions r u None))
   \<and> fs_get_user_decisions r u (Some 0) = fs_get_user_decisions r u None
   \<and> (0 < n \<longrightarrow>
        fs_get_user_decisions r u (Some n)
          = Inr (take (nat n) (projr (fs_get_user_decisions r u None)))
        \<and> int (length (projr (fs_get_user_decisions r u (Some n)))) \<le> n
        \<and> sorted_wrt (\<lambda>a b. created_at a \<ge> created_at b)
             (projr (fs_get_user_decisions r u (Some n)))
        \<and> (\<forall>a\<in>set (projr (fs_get_user_decisions r u (Some n))).
              \<forall>b\<in>set (drop (nat n) (projr (fs_get_user_decisions r u None))).
                created_at a \<ge> created_at b))"
proof -
  let ?q = "sort_descending (\<lambda>(k, d). created_at d) (where_eq d_user_id u (fs_decisions r))"
  let ?all = "map with_id ?q"
  have all: "fs_get_user_decisions r u None = Inr ?all"
    by (simp add: fs_get_user_decisions_def)
  have "sorted_wrt (\<lambda>a b. (\<lambda>(k, d). created_at d) a \<ge> (\<lambda>(k, d). created_at d) b) ?q"
    by (rule sort_descending_sorted)
  then have srt: "sorted_wrt (\<lambda>a b. created_at a \<ge> created_at b) ?all"
    by (simp add: sorted_wrt_map case_prod_unfold) (simp add: with_id_def decision_doc.defs decision.defs)
  have lim: "fs_get_user_decisions r u (Some n) = Inr (take (nat n) ?all)" if "0 < n"
    using that by (simp add: fs_get_user_decisions_def query_limit_def take_map)
  have zero: "fs_get_user_decisions r u (Some 0) = Inr ?all"
    by (simp add: fs_get_user_decisions_def)
  have ms: "mset ?all = mset (map with_id (filter (\<lambda>(k, d). d_user_id d = u) (fs_decisions r)))"
    by (simp add: where_eq_def)
  show ?thesis
    using ms srt zero lim sorted_wrt_take [OF srt, of "nat n"]
      sorted_wrt_take_drop [OF srt, of "nat n"]
    by (auto simp: all)
qed


text \<open>
  C4, as stated, fails: the claim bounds the result by the limit whenever one is
  supplied, but both managers test \<open>if limit:\<close>, so a limit of \<open>0\<close> is taken as no
  limit and every decision of the user is returned.
\<close>

theorem get_user_decisions_limit_counterexample:
  "\<not> int (length (get_user_decisions sample_store 1 (Some 0))) \<le> 0
   \<and> \<not> int (length (projr (fs_get_user_decisions sample_firestore ''u1'' (Some 0)))) \<le> 0"
  by (simp add: get_user_decisions_def fs_get_user_decisions_def sample_store_def
      sample_firestore_def sample_decision_def where_eq_def decision_doc.truncate_def)

text \<open>
  C4, amended. \<open>get_user_decisions\<close> without a limit returns exactly the decisions of
  the user (each as often as it is stored), in non-increasing order of \<open>created_at\<close>.
  With a positive limit \<open>n\<close> it returns the first \<open>n\<close> records of that sequence: at
  most \<open>n\<close> records, still in non-increasing order, each at least as recent as every
  record left out. A limit of \<open>0\<close> returns what no limit returns. The first conjunct is
  the local store, the second the Firestore manager, whose query never fails for such
  limits.
\<close>

theorem get_user_decisions_sorted_limited:
  "(mset (get_user_decisions s u None) = mset (filter (\<lambda>d. d_user_id d = u) (decisions s))
   \<and> sorted_wrt (\<lambda>a b. created_at a \<ge> created_at b) (get_user_decisions s u None)
   \<and> get_user_decisions s u (Some 0) = get_user_decisions s u None
   \<and> (0 < n \<longrightarrow>
        get_user_decisions s u (Some n) = take (nat n) (get_user_decisions s u None)
        \<and> int (length (get_user_decisions s u (Some n))) \<le> n
        \<and> sorted_wrt (\<lambda>a b. created_at a \<ge> created_at b) (get_user_decisions s u (Some n))
        \<and> (\<forall>a\<in>set (get_user_decisions s u (Some n)).
              \<forall>b\<in>set (drop (nat n) (get_user_decisions s u None)).
                created_at a \<ge> created_at b)))
   \<and> (\<not> isl (fs_get_user_decisions r u' None)
   \<and> mset (projr (fs_get_user_decisions r u' None))
        = mset (map with_id (filter (\<lambda>(k, d). d_user_id d = u') (fs_decisions r)))
   \<and> sorted_wrt (\<lambda>a b. created_at a \<ge> created_at b) (projr (fs_get_user_decisions r u' None))
   \<and> fs_get_user_decisions r u' (Some 0) = fs_get_user_decisions r u' None
   \<and> (0 < n \<longrightarrow>
        fs_get_user_decisions r u' (Some n)
          = Inr (take (nat n) (projr (fs_get_user_decisions r u' None)))
        \<and> int (length (projr (fs_get_user_decisions r u' (Some n)))) \<le> n
        \<and> sorted_wrt (\<lambda>a b. created_at a \<ge> created_at b)
             (projr (fs_get_user_decisions r u' (Some n)))
        \<and> (\<forall>a\<in>set (projr (fs_get_user_decisions r u' (Some n))).
              \<forall>b\<in>set (drop (nat n) (projr (fs_get_user_decisions r u' None))).
                created_at a \<ge> created_at b)))"
  by (rule conjI [OF get_user_decisions_json get_user_decisions_firestore])

theorem get_user_decisions_sorted_limited_witness:
  "(0::int) < 1
   \<and> map d_id (get_user_decisions sample_store 1 None) = [''d3'', ''d2'']
   \<and> map d_id (get_user_decisions sample_store 1 (Some 1)) = [''d3'']
   \<and> int (length (get_user_decisions sample_store 1 (Some 1))) \<le> 1
   \<and> map_sum id (map d_id) (fs_get_user_decisions sample_firestore ''u1'' None)
        = Inr [''d3'', ''d2'']
   \<and> map_sum id (map d_id) (fs_get_user_decisions sample_firestore ''u1'' (Some 1))
        = Inr [''d3'']"
  using get_user_decisions_sorted_limited [of sample_store 1 1 sample_firestore "''u1''"]
  by (simp add: get_user_decisions_def fs_get_user_decisions_def sample_store_def
      sample_firestore_def sample_decision_def where_eq_def decision_doc.truncate_def
      sort_descending_def slice_to_def query_limit_def)

section \<open>Chat history\<close>


lemma filter_if: "(if b then filter P xs else xs) = filter (\<lambda>x. b \<longrightarrow> P x) xs"
  by simp

lemma get_chat_history_eq:
  "get_chat_history s u did ct ih =
     sort_ascending timestamp
       (filter (\<lambda>c. c_user_id c = u
                   \<and> (given did \<longrightarrow> decision_id c = did)
                   \<and> (given ct \<longrightarrow> Some (chat_type c) = ct)
                   \<and> (ih \<or> is_visible_to_user c)) (chat s))"
proof -
  have "filter (\<lambda>c. \<not> ih \<longrightarrow> is_visible_to_user c)
          (filter (\<lambda>c. given ct \<longrightarrow> Some (chat_type c) = ct)
            (filter (\<lambda>c. given did \<longrightarrow> decision_id c = did)
              (filter (\<lambda>c. c_user_id c = u) (chat s))))
        = filter (\<lambda>c. c_user_id c = u
                   \<and> (given did \<longrightarrow> decision_id c = did)
                   \<and> (given ct \<longrightarrow> Some (chat_type c) = ct)
                   \<and> (ih \<or> is_visible_to_user c)) (chat s)"
    by (auto intro: filter_cong)
  then show ?thesis
    unfolding get_chat_history_def Let_def filter_if by (simp only:)
qed

lemma chat_with_id_fields [simp]:
  "c_id (chat_with_id (k, d)) = k" "timestamp (chat_with_id (k, d)) = timestamp d"
  "c_user_id (chat_with_id (k, d)) = c_user_id d"
  "decision_id (chat_with_id (k, d)) = decision_id d"
  "chat_type (chat_with_id (k, d)) = chat_type d"
  "is_visible_to_user (chat_with_id (k, d)) = is_visible_to_user d"
  by (cases d; simp add: chat_with_id_def chat_doc.defs chat_message.defs)+

lemma fs_get_chat_history_eq:
  "fs_get_chat_history r u did ct ih =
     map chat_with_id
       (sort_ascending (\<lambda>(k, d). timestamp d)
         (filter (\<lambda>(k, c). c_user_id c = u
                   \<and> (given did \<longrightarrow> decision_id c = did)
                   \<and> (given ct \<longrightarrow> Some (chat_type c) = ct)
                   \<and> (ih \<or> is_visible_to_user c)) (fs_chat r)))"
  unfolding fs_get_chat_history_def Let_def where_eq_def
  by (cases "given did"; cases "given ct"; cases ih; simp add: case_prod_unfold conj_assoc)


lemma sort_ascending_sorted: "sorted (map f (sort_ascending f xs))"
  by (simp add: sort_ascending_def)

lemma sort_ascending_mset [simp]: "mset (sort_ascending f xs) = mset xs"
  by (simp add: sort_ascending_def)

lemma sort_ascending_set [simp]: "set (sort_ascending f xs) = set xs"
  by (simp add: sort_ascending_def)

lemma get_chat_history_json:
  "sorted (map timestamp (get_chat_history s u did ct ih))
   \<and> mset (get_chat_history s u did ct ih)
       = mset (filter (\<lambda>c. c_user_id c = u
                   \<and> (given did \<longrightarrow> decision_id c = did)
                   \<and> (given ct \<longrightarrow> Some (chat_type c) = ct)
                   \<and> (ih \<or> is_visible_to_user c)) (chat s))
   \<and> (last (chat (snd (save_chat_message s u um ar ct0 did0 False now)))
         \<in> set (get_chat_history (snd (save_chat_message s u um ar ct0 did0 False now))
                  u None None ih)
       \<longleftrightarrow> ih)"
  by (auto simp: get_chat_history_eq sort_ascending_sorted save_chat_message_def Let_def
      given_def)

lemma get_chat_history_firestore:
  "sorted (map timestamp (fs_get_chat_history r u did ct ih))
   \<and> mset (fs_get_chat_history r u did ct ih)
       = mset (map chat_with_id
           (filter (\<lambda>(k, c). c_user_id c = u
                   \<and> (given did \<longrightarrow> decision_id c = did)
                   \<and> (given ct \<longrightarrow> Some (chat_type c) = ct)
                   \<and> (ih \<or> is_visible_to_user c)) (fs_chat r)))
   \<and> (chat_with_id (g, the (doc_get (fs_chat (snd (fs_save_chat_message r u um ar ct0 did0
                        False g now))) g))
         \<in> set (fs_get_chat_history (snd (fs_save_chat_message r u um ar ct0 did0 False g now))
                  u None None ih)
       \<longleftrightarrow> ih)"
proof -
  let ?q = "filter (\<lambda>(k, c). c_user_id c = u
                   \<and> (given did \<longrightarrow> decision_id c = did)
                   \<and> (given ct \<longrightarrow> Some (chat_type c) = ct)
                   \<and> (ih \<or> is_visible_to_user c)) (fs_chat r)"
  have "sorted (map (\<lambda>(k, d). timestamp d) (sort_ascending (\<lambda>(k, d). timestamp d) ?q))"
    by (rule sort_ascending_sorted)
  moreover have "map timestamp (map chat_with_id xs) = map (\<lambda>(k, d). timestamp d) xs"
    for xs :: "(string \<times> (string, 'a) chat_doc) list"
    by (induction xs) auto
  ultimately have srt: "sorted (map timestamp (fs_get_chat_history r u did ct ih))"
    by (simp only: fs_get_chat_history_eq)
  let ?p = "\<lparr>c_user_id = u, decision_id = did0, chat_type = ct0, user_message = um,
             ai_response = ar, timestamp = now, is_visible_to_user = False\<rparr>"
  let ?c' = "doc_set (fs_chat r) g ?p"
  let ?res = "map chat_with_id
       (sort_ascending (\<lambda>(k, d). timestamp d)
         (filter (\<lambda>(k, c). c_user_id c = u \<and> (ih \<or> is_visible_to_user c)) ?c'))"
  have saved: "chat_with_id (g, ?p) \<in> set ?res \<longleftrightarrow> ih"
  proof
    assume "chat_with_id (g, ?p) \<in> set ?res"
    then obtain k d where kd: "chat_with_id (g, ?p) = chat_with_id (k, d)"
      and vis: "ih \<or> is_visible_to_user d"
      by auto
    have "is_visible_to_user (chat_with_id (g, ?p)) = is_visible_to_user (chat_with_id (k, d))"
      by (simp only: kd)
    then show ih using vis by simp
  next
    assume ih
    then have "(g, ?p) \<in> set (filter (\<lambda>(k, c). c_user_id c = u \<and> (ih \<or> is_visible_to_user c)) ?c')"
      using doc_set_mem [of g ?p "fs_chat r"] by simp
    then show "chat_with_id (g, ?p) \<in> set ?res"
      by (simp only: set_map sort_ascending_set) (rule imageI)
  qed
  have res: "fs_get_chat_history (snd (fs_save_chat_message r u um ar ct0 did0 False g now))
                  u None None ih = ?res"
    by (simp add: fs_get_chat_history_eq fs_save_chat_message_def Let_def given_def)
  have got: "the (doc_get (fs_chat (snd (fs_save_chat_message r u um ar ct0 did0 False g now))) g)
      = ?p"
    by (simp add: fs_save_chat_message_def Let_def doc_get_doc_set)
  show ?thesis
    using srt saved unfolding res got
    by (simp add: fs_get_chat_history_eq)
qed


text \<open>
  C5, as stated, fails: the claim filters by decision id and by chat type whenever
  those arguments are supplied, but both managers test \<open>if decision_id:\<close> and
  \<open>if chat_type:\<close>, so a supplied empty string filters nothing and messages of other
  decisions and other chat types are returned.
\<close>

theorem get_chat_history_empty_argument_counterexample:
  "\<not> list_all (\<lambda>c. decision_id c = Some [])
       (get_chat_history sample_store 1 (Some []) None False)
   \<and> \<not> list_all (\<lambda>c. chat_type c = [])
       (get_chat_history sample_store 1 None (Some []) False)
   \<and> \<not> list_all (\<lambda>c. decision_id c = Some [])
       (fs_get_chat_history sample_firestore ''u1'' (Some []) None False)"
  by (simp add: get_chat_history_eq fs_get_chat_history_eq given_def sample_store_def
      sample_firestore_def sample_chat_def sort_ascending_def chat_doc.truncate_def)

text \<open>
  C5, amended. \<open>get_chat_history\<close> returns, in non-decreasing order of \<open>timestamp\<close>,
  exactly the stored messages of the user that match the decision id when a non-empty
  one is supplied, match the chat type when a non-empty one is supplied, and are
  visible unless \<open>include_hidden\<close> is set; an empty string counts as not supplied. A
  message saved with \<open>is_visible = False\<close> is in the user's unfiltered history exactly
  when \<open>include_hidden\<close> is passed. The first conjunct is the local store, the second
  the Firestore manager.
\<close>

theorem get_chat_history_filtered_sorted:
  "(sorted (map timestamp (get_chat_history s u did ct ih))
   \<and> mset (get_chat_history s u did ct ih)
       = mset (filter (\<lambda>c. c_user_id c = u
                   \<and> (given did \<longrightarrow> decision_id c = did)
                   \<and> (given ct \<longrightarrow> Some (chat_type c) = ct)
                   \<and> (ih \<or> is_visible_to_user c)) (chat s))
   \<and> (last (chat (snd (save_chat_message s u um ar ct0 did0 False now)))
         \<in> set (get_chat_history (snd (save_chat_message s u um ar ct0 did0 False now))
                  u None None ih)
       \<longleftrightarrow> ih))
   \<and> (sorted (map timestamp (fs_get_chat_history r u' did ct ih))
   \<and> mset (fs_get_chat_history r u' did ct ih)
       = mset (map chat_with_id
           (filter (\<lambda>(k, c). c_user_id c = u'
                   \<and> (given did \<longrightarrow> decision_id c = did)
                   \<and> (given ct \<longrightarrow> Some (chat_type c) = ct)
                   \<and> (ih \<or> is_visible_to_user c)) (fs_chat r)))
   \<and> (chat_with_id (g, the (doc_get (fs_chat (snd (fs_save_chat_message r u' um ar ct0 did0
                        False g now))) g))
         \<in> set (fs_get_chat_history (snd (fs_save_chat_message r u' um ar ct0 did0 False g now))
                  u' None None ih)
       \<longleftrightarrow> ih))"
  by (rule conjI [OF get_chat_history_json get_chat_history_firestore])

theorem get_chat_history_filtered_sorted_witness:
  "given (Some ''d2'')
   \<and> map c_id (get_chat_history sample_store 1 (Some ''d2'') None False) = [1]
   \<and> map c_id (get_chat_history sample_store 1 None (Some ''decision_recording'') False) = [4, 1]
   \<and> map c_id (get_chat_history sample_store 1 None None False) = [4, 1]
   \<and> map c_id (get_chat_history sample_store 1 None None True) = [2, 4, 1]
   \<and> map c_id (fs_get_chat_history sample_firestore ''u1'' (Some ''d2'') None False) = [''c1'']
   \<and> map c_id (fs_get_chat_history sample_firestore ''u1'' None None True)
        = [''c2'', ''c4'', ''c1'']"
  using get_chat_history_filtered_sorted [of sample_store 1 "Some ''d2''" None False
      "''hello''" "''hi''" "''quick_chat''" None 9 sample_firestore "''u1''" "''c9''"]
  by (simp add: get_chat_history_eq fs_get_chat_history_eq given_def sample_store_def
      sample_firestore_def sample_chat_def sort_ascending_def chat_doc.truncate_def)

section \<open>The twenty percent threshold\<close>

text \<open>
  \<open>round53\<close> leaves numbers of at most 53 bits alone; a longer one is moved by at most
  half a unit in the last place kept, and never below the multiple of that unit just
  under it.
\<close>


declare bit_length.simps [simp del]

lemma bit_length_le: "p < 2 ^ k \<Longrightarrow> bit_length p \<le> k"
proof (induction k arbitrary: p)
  case 0
  then show ?case by (simp add: bit_length.simps)
next
  case (Suc k)
  show ?case
  proof (cases "p = 0")
    case True
    then show ?thesis by (simp add: bit_length.simps)
  next
    case False
    have "p div 2 < 2 ^ k" using Suc.prems by simp
    then have "bit_length (p div 2) \<le> k" by (rule Suc.IH)
    then show ?thesis using False by (simp add: bit_length.simps [of p])
  qed
qed

lemma round53_small: "bit_length p \<le> 53 \<Longrightarrow> round53 p = p"
  by (simp add: round53_def)

lemma round53_bounds:
  assumes "53 < bit_length p"
  shows "(p div 2 ^ (bit_length p - 53)) * 2 ^ (bit_length p - 53) \<le> round53 p"
    and "round53 p \<le> p + 2 ^ (bit_length p - 53 - 1)"
proof -
  define s where "s = bit_length p - 53"
  define q where "q = p div 2 ^ s"
  define r where "r = p mod 2 ^ s"
  have s: "0 < s" using assms by (simp add: s_def)
  have pow: "(2::nat) ^ s = 2 * 2 ^ (s - 1)"
    using s by (cases s) simp_all
  have p: "p = q * 2 ^ s + r"
    unfolding q_def r_def by (rule div_mult_mod_eq [symmetric])
  have rd: "round53 p = (if 2 ^ (s - 1) < r \<or> (r = 2 ^ (s - 1) \<and> odd q) then q + 1 else q) * 2 ^ s"
    using assms by (simp add: round53_def Let_def s_def q_def r_def)
  show "(p div 2 ^ (bit_length p - 53)) * 2 ^ (bit_length p - 53) \<le> round53 p"
    unfolding rd s_def [symmetric] q_def [symmetric] by simp
  have "round53 p \<le> p + 2 ^ (s - 1)"
  proof (cases "2 ^ (s - 1) < r \<or> (r = 2 ^ (s - 1) \<and> odd q)")
    case True
    then have "2 ^ (s - 1) \<le> r" by auto
    moreover have "round53 p = q * 2 ^ s + 2 ^ s" using True rd by simp
    ultimately show ?thesis using p pow by linarith
  next
    case False
    then have "round53 p = q * 2 ^ s" using rd by simp
    then show ?thesis using p by linarith
  qed
  then show "round53 p \<le> p + 2 ^ (bit_length p - 53 - 1)"
    by (simp add: s_def)
qed


lemma len_times_0_2_compare:
  assumes n0: "0 < n" and nb: "n < 2 ^ 52"
  shows "len_times_0_2 n < c * 2 ^ 54 \<longleftrightarrow> n < 5 * c"
proof -
  define P where "P = n * 3602879701896397"
  define K :: nat where "K = 2 ^ 54"
  have Kval: "K = 18014398509481984" by (simp add: K_def)
  have nK: "n < 4503599627370496" using nb by simp
  have rn: "round53 n = n"
    using bit_length_le [OF nb] by (intro round53_small) simp
  have lt: "len_times_0_2 n = round53 P"
    by (simp add: len_times_0_2_def rn P_def)
  have five: "5 * P = n * K + n"
    by (simp add: P_def Kval)
  have Pb: "P < 2 ^ 104"
  proof -
    have "P \<le> 4503599627370496 * 3602879701896397"
      unfolding P_def using nK by (intro mult_le_mono) simp_all
    also have "\<dots> < (2::nat) ^ 104" by simp
    finally show ?thesis .
  qed
  show ?thesis
  proof (cases "bit_length P \<le> 53")
    case True
    then have "round53 P = P" by (rule round53_small)
    then show ?thesis
      unfolding lt K_def [symmetric] using five nK Kval by auto
  next
    case False
    define s where "s = bit_length P - 53"
    have s1: "0 < s" using False by (simp add: s_def)
    have s51: "s \<le> 51" using bit_length_le [OF Pb] by (simp add: s_def)
    have lower: "(P div 2 ^ s) * 2 ^ s \<le> round53 P"
      unfolding s_def using False by (intro round53_bounds) simp
    have "round53 P \<le> P + 2 ^ (s - 1)"
      unfolding s_def using False by (intro round53_bounds) simp
    moreover have "(2::nat) ^ (s - 1) \<le> 2 ^ 50"
      using s51 by (intro power_increasing) simp_all
    ultimately have upper: "round53 P \<le> P + 1125899906842624" by simp
    have split: "K = 2 ^ (54 - s) * 2 ^ s"
      unfolding K_def using s51 by (simp add: power_add [symmetric])
    show ?thesis
    proof
      assume "len_times_0_2 n < c * 2 ^ 54"
      then have R: "round53 P < c * K" by (simp add: lt K_def)
      show "n < 5 * c"
      proof (rule ccontr)
        assume "\<not> n < 5 * c"
        then have "5 * (c * K) \<le> n * K" by simp
        then have "c * K \<le> P" using five by linarith
        then have "(c * 2 ^ (54 - s)) * 2 ^ s \<le> P"
          by (simp add: split mult.assoc)
        then have "c * 2 ^ (54 - s) \<le> P div 2 ^ s"
          by (simp add: less_eq_div_iff_mult_less_eq)
        then have "(c * 2 ^ (54 - s)) * 2 ^ s \<le> (P div 2 ^ s) * 2 ^ s"
          by (rule mult_le_mono1)
        moreover have "c * K = (c * 2 ^ (54 - s)) * 2 ^ s"
          by (simp only: split mult.assoc)
        ultimately have "c * K \<le> round53 P"
          using lower by linarith
        then show False using R by simp
      qed
    next
      assume "n < 5 * c"
      then have "n * K + K \<le> 5 * (c * K)"
        by (metis Suc_leI add.commute mult.assoc mult_Suc mult_le_mono1)
      then have "5 * round53 P < 5 * (c * K)"
        using upper five nK Kval by linarith
      then show "len_times_0_2 n < c * 2 ^ 54"
        by (simp add: lt K_def)
    qed
  qed
qed

text \<open>
  C9. \<open>detect_language\<close> is a function of its argument alone. It returns \<open>hi\<close> exactly
  when the number of code points from U+0900 to U+097F exceeds 20% of the length,
  that is when five times that number exceeds the length, and \<open>en\<close> otherwise, the
  empty string included. The source compares in binary64 arithmetic; for every string
  of fewer than \<open>2^52\<close> code points (four pebibytes of characters, more than a process
  can hold) that comparison has the outcome of the exact one.
\<close>

theorem detect_language_threshold:
  assumes "length txt < 2 ^ 52"
  shows "detect_language txt =
           (if length txt < 5 * length (filter devanagari txt) then ''hi'' else ''en'')
         \<and> detect_language [] = ''en''"
proof (cases "txt = []")
  case True
  then show ?thesis by (simp add: detect_language_def)
next
  case False
  then have "0 < length txt" by simp
  from len_times_0_2_compare [OF this assms, of "length (filter devanagari txt)"]
  show ?thesis using False by (simp add: detect_language_def Let_def)
qed


theorem detect_language_threshold_witness:
  "length hindi_sample < 2 ^ 52 \<and> detect_language hindi_sample = ''hi''
   \<and> length english_sample < 2 ^ 52 \<and> detect_language english_sample = ''en''
   \<and> detect_language [] = ''en''
   \<and> detect_language [0x915, 0x61, 0x61, 0x61, 0x61] = ''en''
   \<and> detect_language [0x915, 0x61, 0x61, 0x61] = ''hi''"
  using detect_language_threshold [of hindi_sample] detect_language_threshold [of english_sample]
    detect_language_threshold [of "[0x915, 0x61, 0x61, 0x61, 0x61]"]
    detect_language_threshold [of "[0x915, 0x61, 0x61, 0x61]"]
  by (simp add: hindi_sample_def english_sample_def devanagari_def)

text \<open>
  The rounding model on two small products: \<open>3 * 0.2\<close> is the double
  \<open>0.6000000000000001\<close>, that is \<open>10808639105689192 / 2^54\<close> (rounded up from a tie,
  to even), and \<open>5 * 0.2\<close> is exactly \<open>1.0\<close>.
\<close>


lemma bit_length_gt: "2 ^ k \<le> p \<Longrightarrow> k < bit_length p"
proof (induction k arbitrary: p)
  case 0
  then show ?case by (simp add: bit_length.simps [of p])
next
  case (Suc k)
  then have "2 ^ k \<le> p div 2" by simp
  then have "k < bit_length (p div 2)" by (rule Suc.IH)
  moreover have "p \<noteq> 0"
  proof
    assume "p = 0"
    then show False using Suc.prems by simp
  qed
  ultimately show ?case by (simp add: bit_length.simps [of p])
qed

lemma bit_length_eq: "2 ^ k \<le> p \<Longrightarrow> p < 2 ^ Suc k \<Longrightarrow> bit_length p = Suc k"
  using bit_length_gt [of k p] bit_length_le [of p "Suc k"] by simp

lemma len_times_0_2_examples:
  "len_times_0_2 3 = 10808639105689192" "len_times_0_2 5 = 2 ^ 54"
proof -
  have b2: "bit_length 3 = 2" using bit_length_eq [of 1 3] by simp
  have b3: "bit_length 5 = 3" using bit_length_eq [of 2 5] by simp
  have b54: "bit_length 10808639105689191 = 54"
    using bit_length_eq [of 53 10808639105689191] by simp
  have b55: "bit_length 18014398509481985 = 55"
    using bit_length_eq [of 54 18014398509481985] by simp
  show "len_times_0_2 3 = 10808639105689192"
    by (simp add: len_times_0_2_def round53_def b2 b54 Let_def)
  show "len_times_0_2 5 = 2 ^ 54"
    by (simp add: len_times_0_2_def round53_def b3 b55 Let_def)
qed

end
